theory Spec2Isabelle
  imports Main "HOL-Library.Word" "HOL-Library.Sublist"
begin

unbundle bit_operations_syntax

section \<open>Data model\<close>

text \<open>
  A Python \<open>str\<close> is a sequence of code points (\<open>ord\<close> of each character), a
  \<open>bytes\<close> value a sequence of 8-bit words. The strings of binary digits that
  \<open>steganography.py\<close> builds (\<open>binary_data\<close>, \<open>delimiter\<close>) are HOL strings
  over the characters 0 and 1.
\<close>

type_synonym u8 = "8 word"
type_synonym pystr = "nat list"
type_synonym bytes = "u8 list"
type_synonym path = string

text \<open>
  A decoded image in mode RGB (what \<open>Image.open(p)\<close> followed by
  \<open>convert('RGB')\<close> yields): PIL's \<open>size\<close> is (width, height), the samples are
  stored row-major, channel-minor.
\<close>

record image =
  width :: nat
  height :: nat
  pixels :: "u8 list"

text \<open>
  A numpy array of dtype uint8 with three axes. \<open>size_nd\<close> is numpy's \<open>size\<close>, the
  number of elements; \<open>flatten\<close> returns the elements in row-major order.
\<close>

record ndarray =
  shape :: "nat \<times> nat \<times> nat"
  elems :: "u8 list"

definition np_array :: "image \<Rightarrow> ndarray" where
  "np_array img = \<lparr>shape = (height img, width img, 3), elems = pixels img\<rparr>"

definition size_nd :: "ndarray \<Rightarrow> nat" where
  "size_nd a = length (elems a)"

definition flatten :: "ndarray \<Rightarrow> u8 list" where
  "flatten a = elems a"

definition reshape :: "u8 list \<Rightarrow> nat \<times> nat \<times> nat \<Rightarrow> ndarray" where
  "reshape xs sh = \<lparr>shape = sh, elems = xs\<rparr>"

definition fromarray :: "ndarray \<Rightarrow> image" where
  "fromarray a = (case shape a of (h, w, c) \<Rightarrow> \<lparr>width = w, height = h, pixels = elems a\<rparr>)"

text \<open>
  The files the methods read and write: a path holds a decoded RGB image or nothing.
  Saving as PNG is lossless, so a saved image is read back as it was written; writing a
  file is taken to succeed.
\<close>

type_synonym files = "path \<Rightarrow> image option"

subsection \<open>Exceptions\<close>

text \<open>
  Every \<open>raise\<close> of the source is a value. \<open>msg\<close> is the text of an exception:
  the literals of the source, the text of a library exception, and the prefixes that the
  \<open>except\<close> clauses put in front of \<open>str(e)\<close>.
\<close>

datatype msg =
    Image_too_small nat nat
  | No_hidden_data
  | Invalid_length
  | Incorrect_password
  | No_valid_data
  | Library string
  | Data_extraction_failed msg
  | Encryption_failed msg
  | Decryption_failed msg
  | Image_analysis_failed msg

datatype exn = ValueError msg | Exception msg | LibraryError msg

fun str_exn :: "exn \<Rightarrow> msg" where
  "str_exn (ValueError m) = m"
| "str_exn (Exception m) = m"
| "str_exn (LibraryError m) = m"

definition image_open :: "files \<Rightarrow> path \<Rightarrow> exn + image" where
  "image_open fs p =
     (case fs p of
        None \<Rightarrow> Inl (LibraryError (Library ''cannot open image''))
      | Some img \<Rightarrow> Inr img)"

section \<open>The LSB codec\<close>

subsection \<open>Binary digit strings\<close>

definition digit :: "nat \<Rightarrow> char" where
  "digit d = (if d = 0 then CHR ''0'' else CHR ''1'')"

text \<open>\<open>format(n, 'b')\<close>: the binary digits of n, most significant first, no padding.\<close>

fun bin :: "nat \<Rightarrow> string" where
  "bin n = (if n < 2 then [digit n] else bin (n div 2) @ [digit (n mod 2)])"

declare bin.simps [simp del]

text \<open>\<open>format(n, '08b')\<close>: padded with zeros on the left to a width of at least 8.\<close>

definition format_08b :: "nat \<Rightarrow> string" where
  "format_08b n = (let s = bin n in replicate (8 - length s) CHR ''0'' @ s)"

text \<open>
  \<open>int(bit)\<close> for a character of \<open>binary_data\<close>, which holds the digits 0 and 1
  only.
\<close>

definition int_of_bit :: "char \<Rightarrow> nat" where
  "int_of_bit c = (if c = CHR ''1'' then 1 else 0)"

text \<open>
  \<open>int(byte, 2)\<close> for a group of \<open>actual_binary_data\<close>, which is built from the
  digits 0 and 1 only, so the call cannot raise.
\<close>

definition int_base2 :: "string \<Rightarrow> nat" where
  "int_base2 s = foldl (\<lambda>acc c. 2 * acc + int_of_bit c) 0 s"

text \<open>\<open>str(pixel_value & 1)\<close>: the masked sample is 0 or 1.\<close>

definition str_bit :: "u8 \<Rightarrow> string" where
  "str_bit w = [digit (unat w)]"

text \<open>\<open>s.find(sub)\<close>: the lowest index at which sub occurs in s, or -1.\<close>

fun find_from :: "nat \<Rightarrow> string \<Rightarrow> string \<Rightarrow> int" where
  "find_from i [] sub = (if sub = [] then int i else - 1)"
| "find_from i (c # cs) sub =
     (if prefix sub (c # cs) then int i else find_from (Suc i) cs sub)"

definition str_find :: "string \<Rightarrow> string \<Rightarrow> int" where
  "str_find s sub = find_from 0 s sub"

subsection \<open>hide_data, lines 28 to 49: embedding into the array\<close>

definition delimiter :: string where
  "delimiter = ''1111111111111110''"

definition to_binary :: "pystr \<Rightarrow> string" where
  "to_binary data_to_hide = concat (map format_08b data_to_hide)"

text \<open>
  The loop of lines 43 to 46 over \<open>enumerate(binary_data)\<close>, with its guard
  \<open>i < len(flat_img)\<close>; the array is passed through and updated by index.
\<close>

fun embed_loop :: "nat \<Rightarrow> string \<Rightarrow> u8 list \<Rightarrow> u8 list" where
  "embed_loop i [] flat_img = flat_img"
| "embed_loop i (b # bs) flat_img =
     embed_loop (Suc i) bs
       (if i < length flat_img
        then flat_img[i := (flat_img ! i AND 0xFE) OR of_nat (int_of_bit b)]
        else flat_img)"

definition hide_array :: "ndarray \<Rightarrow> pystr \<Rightarrow> exn + ndarray" where
  "hide_array img_array data_to_hide =
     (let binary_data = to_binary data_to_hide @ delimiter;
          max_capacity = size_nd img_array
      in if length binary_data > max_capacity
         then Inl (ValueError (Image_too_small (length binary_data) max_capacity))
         else let flat_img = flatten img_array
              in Inr (reshape (embed_loop 0 binary_data flat_img) (shape img_array)))"

subsection \<open>extract_data, lines 84 to 109: scanning the array\<close>

definition lsb_string :: "u8 list \<Rightarrow> string" where
  "lsb_string img_array = foldl (\<lambda>binary_data pixel_value. binary_data @ str_bit (pixel_value AND 1)) [] img_array"

text \<open>
  The loop of lines 102 to 109 over \<open>range(0, len(actual_binary_data), 8)\<close>: the
  argument is what is left of the string from index i on. A group that is not 8 digits
  long is skipped; the first value above 127 ends the loop.
\<close>

function to_text :: "string \<Rightarrow> pystr \<Rightarrow> pystr" where
  "to_text rest extracted_text =
     (if rest = [] then extracted_text
      else let byte = take 8 rest
           in if length byte = 8
              then let char_code = int_base2 byte
                   in if char_code \<le> 127
                      then to_text (drop 8 rest) (extracted_text @ [char_code])
                      else extracted_text
              else to_text (drop 8 rest) extracted_text)"
  by pat_completeness auto
termination
  by (relation "measure (\<lambda>(rest, extracted_text). length rest)") auto

declare to_text.simps [simp del]

definition extract_text :: "u8 list \<Rightarrow> exn + pystr" where
  "extract_text img_array =
     (let binary_data = lsb_string img_array;
          delimiter_index = str_find binary_data delimiter
      in if delimiter_index = - 1 then Inl (ValueError No_hidden_data)
         else let actual_binary_data = take (nat delimiter_index) binary_data
              in if length actual_binary_data mod 8 \<noteq> 0 then Inl (ValueError Invalid_length)
                 else Inr (to_text actual_binary_data []))"

section \<open>The payload cipher\<close>

text \<open>
  The primitives of PyCryptodome, \<open>base64\<close>, the \<open>str\<close> codec and \<open>os.path\<close> are
  not part of the repository: they are the fields of a record, and every one that can raise
  returns a sum. \<open>pbkdf2 password salt\<close> is \<open>PBKDF2(password, salt, 32, count=100000)\<close>;
  \<open>gcm_encrypt key nonce plaintext\<close> is \<open>AES.new(key, AES.MODE_GCM)\<close> followed by
  \<open>encrypt_and_digest\<close> and returns (ciphertext, tag); \<open>gcm_decrypt key nonce ciphertext
  tag\<close> is \<open>AES.new(key, AES.MODE_GCM, nonce=nonce)\<close> followed by
  \<open>decrypt_and_verify\<close>; \<open>default_output_path p\<close> is \<open>os.path.join\<close> of the directory
  of p and its base name prefixed with stego_.
\<close>

record library =
  pbkdf2 :: "pystr \<Rightarrow> bytes \<Rightarrow> exn + bytes"
  gcm_encrypt :: "bytes \<Rightarrow> bytes \<Rightarrow> bytes \<Rightarrow> exn + bytes \<times> bytes"
  gcm_decrypt :: "bytes \<Rightarrow> bytes \<Rightarrow> bytes \<Rightarrow> bytes \<Rightarrow> exn + bytes"
  b64encode :: "bytes \<Rightarrow> bytes"
  b64decode :: "bytes \<Rightarrow> exn + bytes"
  utf8_encode :: "pystr \<Rightarrow> exn + bytes"
  utf8_decode :: "bytes \<Rightarrow> exn + pystr"
  default_output_path :: "path \<Rightarrow> path"

text \<open>
  The random bytes one call of \<open>_encrypt_data\<close> draws: \<open>get_random_bytes(16)\<close> and the
  nonce that \<open>AES.new\<close> generates.
\<close>

record entropy =
  salt :: bytes
  nonce :: bytes

text \<open>Sequencing of calls that can raise: the first exception ends the block.\<close>

definition and_then :: "exn + 'a \<Rightarrow> ('a \<Rightarrow> exn + 'b) \<Rightarrow> exn + 'b" where
  "and_then r f = (case r of Inl e \<Rightarrow> Inl e | Inr x \<Rightarrow> f x)"

text \<open>The \<open>try\<close> block of \<open>_encrypt_data\<close>, lines 130 to 147.\<close>

definition encrypt_body :: "library \<Rightarrow> entropy \<Rightarrow> pystr \<Rightarrow> pystr \<Rightarrow> exn + pystr" where
  "encrypt_body L rnd data password =
     and_then (pbkdf2 L password (salt rnd)) (\<lambda>key.
     and_then (utf8_encode L data) (\<lambda>plaintext.
     and_then (gcm_encrypt L key (nonce rnd) plaintext) (\<lambda>(ciphertext, tag).
     utf8_decode L (b64encode L (salt rnd @ nonce rnd @ tag @ ciphertext)))))"

text \<open>\<open>_encrypt_data\<close> with its \<open>except\<close> clause, lines 149 and 150.\<close>

definition encrypt_data :: "library \<Rightarrow> entropy \<Rightarrow> pystr \<Rightarrow> pystr \<Rightarrow> exn + pystr" where
  "encrypt_data L rnd data password =
     (case encrypt_body L rnd data password of
        Inl e \<Rightarrow> Inl (Exception (Encryption_failed (str_exn e)))
      | Inr encrypted_data \<Rightarrow> Inr encrypted_data)"

text \<open>
  The \<open>try\<close> block of \<open>_decrypt_data\<close>, lines 155 to 171. The slices of lines 159 to
  162 are taken whatever the length of the decoded bytes.
\<close>

definition decrypt_body :: "library \<Rightarrow> pystr \<Rightarrow> pystr \<Rightarrow> exn + pystr" where
  "decrypt_body L encrypted_data password =
     and_then (utf8_encode L encrypted_data) (\<lambda>encoded.
     and_then (b64decode L encoded) (\<lambda>encrypted_bytes.
       let salt = take 16 encrypted_bytes;
           nonce = take 16 (drop 16 encrypted_bytes);
           tag = take 16 (drop 32 encrypted_bytes);
           ciphertext = drop 48 encrypted_bytes
       in and_then (pbkdf2 L password salt) (\<lambda>key.
          and_then (gcm_decrypt L key nonce ciphertext tag) (\<lambda>decrypted_data.
          utf8_decode L decrypted_data))))"

text \<open>\<open>_decrypt_data\<close> with its \<open>except\<close> clause, lines 173 and 174.\<close>

definition decrypt_data :: "library \<Rightarrow> pystr \<Rightarrow> pystr \<Rightarrow> exn + pystr" where
  "decrypt_data L encrypted_data password =
     (case decrypt_body L encrypted_data password of
        Inl e \<Rightarrow> Inl (Exception (Decryption_failed (str_exn e)))
      | Inr text \<Rightarrow> Inr text)"

section \<open>The methods\<close>

text \<open>
  Each method takes the files and returns its outcome with the files after the call.
  An outcome \<open>Inl e\<close> is an exception that leaves the method, \<open>Inr v\<close> a returned value.
\<close>

subsection \<open>hide_data\<close>

text \<open>
  The \<open>try\<close> block, lines 17 to 65. \<open>password\<close> is a \<open>str\<close>, true when not empty;
  \<open>output_path\<close> is \<open>None\<close> or a path.
\<close>

text \<open>Lines 55 to 59: the output path given, or the one derived from the input path.\<close>

definition resolve_output_path :: "library \<Rightarrow> path \<Rightarrow> path option \<Rightarrow> path" where
  "resolve_output_path L image_path output_path =
     (case output_path of
        None \<Rightarrow> default_output_path L image_path
      | Some p \<Rightarrow> p)"

definition hide_body ::
  "library \<Rightarrow> entropy \<Rightarrow> files \<Rightarrow> path \<Rightarrow> pystr \<Rightarrow> pystr \<Rightarrow> path option \<Rightarrow> (exn + path) \<times> files" where
  "hide_body L rnd fs image_path secret_data password output_path =
     (case and_then (image_open fs image_path) (\<lambda>img.
           and_then (if password \<noteq> [] then encrypt_data L rnd secret_data password
                     else Inr secret_data) (\<lambda>data_to_hide.
           hide_array (np_array img) data_to_hide)) of
        Inl e \<Rightarrow> (Inl e, fs)
      | Inr modified_img_array \<Rightarrow>
          let output_img = fromarray modified_img_array;
              out = resolve_output_path L image_path output_path
          in (Inr out, fs(out \<mapsto> output_img)))"

text \<open>
  \<open>hide_data\<close> with its \<open>except\<close> clause, lines 67 to 69: any exception of the block
  becomes the returned value \<open>None\<close>.
\<close>

definition hide_data ::
  "library \<Rightarrow> entropy \<Rightarrow> files \<Rightarrow> path \<Rightarrow> pystr \<Rightarrow> pystr \<Rightarrow> path option
     \<Rightarrow> (exn + path option) \<times> files" where
  "hide_data L rnd fs image_path secret_data password output_path =
     (case hide_body L rnd fs image_path secret_data password output_path of
        (Inl e, fs') \<Rightarrow> (Inr None, fs')
      | (Inr out, fs') \<Rightarrow> (Inr (Some out), fs'))"

subsection \<open>extract_data\<close>

text \<open>
  Lines 111 to 116: \<open>password\<close> is \<open>None\<close> or a \<open>str\<close>, true when it is a non-empty
  \<open>str\<close>; the bare \<open>except\<close> replaces whatever \<open>_decrypt_data\<close> raises.
\<close>

definition decrypt_if_password :: "library \<Rightarrow> pystr \<Rightarrow> pystr option \<Rightarrow> exn + pystr" where
  "decrypt_if_password L extracted_text password =
     (case password of
        None \<Rightarrow> Inr extracted_text
      | Some pw \<Rightarrow>
          if pw \<noteq> []
          then (case decrypt_data L extracted_text pw of
                  Inl e \<Rightarrow> Inl (ValueError Incorrect_password)
                | Inr text \<Rightarrow> Inr text)
          else Inr extracted_text)"

text \<open>The \<open>try\<close> block, lines 75 to 122.\<close>

definition extract_body :: "library \<Rightarrow> files \<Rightarrow> path \<Rightarrow> pystr option \<Rightarrow> exn + pystr" where
  "extract_body L fs image_path password =
     and_then (image_open fs image_path) (\<lambda>img.
     and_then (extract_text (flatten (np_array img))) (\<lambda>extracted_text.
     and_then (decrypt_if_password L extracted_text password) (\<lambda>extracted_text.
       if extracted_text = [] then Inl (ValueError No_valid_data)
       else Inr extracted_text)))"

text \<open>\<open>extract_data\<close> with its \<open>except\<close> clause, lines 124 and 125.\<close>

definition extract_data ::
  "library \<Rightarrow> files \<Rightarrow> path \<Rightarrow> pystr option \<Rightarrow> (exn + pystr) \<times> files" where
  "extract_data L fs image_path password =
     (case extract_body L fs image_path password of
        Inl e \<Rightarrow> (Inl (Exception (Data_extraction_failed (str_exn e))), fs)
      | Inr extracted_text \<Rightarrow> (Inr extracted_text, fs))"

subsection \<open>analyze_image_capacity\<close>

record capacity_report =
  total_pixels :: int
  max_characters :: int
  max_bytes :: int
  image_dimensions :: "nat \<times> nat"

definition analyze_body :: "files \<Rightarrow> path \<Rightarrow> exn + capacity_report" where
  "analyze_body fs image_path =
     and_then (image_open fs image_path) (\<lambda>img.
       let img_array = np_array img;
           total_pixels = int (size_nd img_array);
           max_chars = (total_pixels - int (length delimiter)) div 8
       in Inr \<lparr>total_pixels = total_pixels, max_characters = max_chars,
                max_bytes = max_chars, image_dimensions = (width img, height img)\<rparr>)"

definition analyze_image_capacity :: "files \<Rightarrow> path \<Rightarrow> (exn + capacity_report) \<times> files" where
  "analyze_image_capacity fs image_path =
     (case analyze_body fs image_path of
        Inl e \<Rightarrow> (Inl (Exception (Image_analysis_failed (str_exn e))), fs)
      | Inr report \<Rightarrow> (Inr report, fs))"

section \<open>Predicates of the properties\<close>

definition binary :: "string \<Rightarrow> bool" where
  "binary s = list_all (\<lambda>c. c = CHR ''0'' \<or> c = CHR ''1'') s"

definition ascii :: "pystr \<Rightarrow> bool" where
  "ascii s = list_all (\<lambda>c. c \<le> 127) s"

definition latin1 :: "pystr \<Rightarrow> bool" where
  "latin1 s = list_all (\<lambda>c. c \<le> 255) s"

section \<open>A library instance and concrete inputs\<close>

text \<open>
  An instance of the library record, on which the methods can be evaluated. Its base64
  and \<open>str\<close> codecs are the library's own: \<open>b64_encode\<close> is RFC 4648 with padding,
  \<open>a2b_base64\<close> is the decoder of \<open>binascii\<close> as \<open>base64.b64decode\<close> calls it
  (characters outside the alphabet are skipped, a completed pad sequence ends the input,
  an unfinished group raises), and the \<open>str\<close> codec is UTF-8 with its rejection of
  surrogates, overlong forms and stray continuation bytes.
\<close>

definition b64_char :: "nat \<Rightarrow> u8" where
  "b64_char v =
     (if v < 26 then of_nat (65 + v)
      else if v < 52 then of_nat (71 + v)
      else if v < 62 then of_nat (v - 4)
      else if v = 62 then 43 else 47)"

fun b64_encode :: "bytes \<Rightarrow> bytes" where
  "b64_encode [] = []"
| "b64_encode [a] =
     [b64_char (unat a div 4), b64_char (unat a mod 4 * 16), 61, 61]"
| "b64_encode [a, b] =
     [b64_char (unat a div 4), b64_char (unat a mod 4 * 16 + unat b div 16),
      b64_char (unat b mod 16 * 4), 61]"
| "b64_encode (a # b # c # rest) =
     [b64_char (unat a div 4), b64_char (unat a mod 4 * 16 + unat b div 16),
      b64_char (unat b mod 16 * 4 + unat c div 64), b64_char (unat c mod 64)]
     @ b64_encode rest"

definition b64_value :: "u8 \<Rightarrow> nat option" where
  "b64_value c =
     (let n = unat c
      in if 65 \<le> n \<and> n \<le> 90 then Some (n - 65)
         else if 97 \<le> n \<and> n \<le> 122 then Some (n - 71)
         else if 48 \<le> n \<and> n \<le> 57 then Some (n + 4)
         else if n = 43 then Some 62
         else if n = 47 then Some 63
         else None)"

fun a2b_base64 :: "bytes \<Rightarrow> nat \<Rightarrow> nat \<Rightarrow> nat \<Rightarrow> bytes \<Rightarrow> exn + bytes" where
  "a2b_base64 [] quad_pos leftchar pads bin_data =
     (if quad_pos = 0 then Inr bin_data
      else if quad_pos = 1
      then Inl (LibraryError (Library ''Invalid base64-encoded string''))
      else Inl (LibraryError (Library ''Incorrect padding'')))"
| "a2b_base64 (this_ch # cs) quad_pos leftchar pads bin_data =
     (if this_ch = 61
      then if quad_pos \<ge> 2
           then if quad_pos + (pads + 1) \<ge> 4 then Inr bin_data
                else a2b_base64 cs quad_pos leftchar (pads + 1) bin_data
           else a2b_base64 cs quad_pos leftchar pads bin_data
      else case b64_value this_ch of
             None \<Rightarrow> a2b_base64 cs quad_pos leftchar pads bin_data
           | Some v \<Rightarrow>
               if quad_pos = 0 then a2b_base64 cs 1 v 0 bin_data
               else if quad_pos = 1
               then a2b_base64 cs 2 (v mod 16) 0 (bin_data @ [of_nat (leftchar * 4 + v div 16)])
               else if quad_pos = 2
               then a2b_base64 cs 3 (v mod 4) 0 (bin_data @ [of_nat (leftchar * 16 + v div 4)])
               else a2b_base64 cs 0 0 0 (bin_data @ [of_nat (leftchar * 64 + v)]))"

definition b64_decode :: "bytes \<Rightarrow> exn + bytes" where
  "b64_decode s = a2b_base64 s 0 0 0 []"

definition utf8_encode_char :: "nat \<Rightarrow> exn + bytes" where
  "utf8_encode_char c =
     (if c < 128 then Inr [of_nat c]
      else if c < 2048 then Inr [of_nat (192 + c div 64), of_nat (128 + c mod 64)]
      else if 55296 \<le> c \<and> c \<le> 57343
      then Inl (LibraryError (Library ''surrogates not allowed''))
      else if c < 65536
      then Inr [of_nat (224 + c div 4096), of_nat (128 + c div 64 mod 64), of_nat (128 + c mod 64)]
      else Inr [of_nat (240 + c div 262144), of_nat (128 + c div 4096 mod 64),
                of_nat (128 + c div 64 mod 64), of_nat (128 + c mod 64)])"

fun str_encode_utf8 :: "pystr \<Rightarrow> exn + bytes" where
  "str_encode_utf8 [] = Inr []"
| "str_encode_utf8 (c # cs) =
     and_then (utf8_encode_char c) (\<lambda>bs.
     and_then (str_encode_utf8 cs) (\<lambda>rest. Inr (bs @ rest)))"

definition continuation :: "u8 \<Rightarrow> bool" where
  "continuation b = (128 \<le> unat b \<and> unat b \<le> 191)"

definition invalid_utf8 :: "exn + pystr" where
  "invalid_utf8 = Inl (LibraryError (Library ''invalid utf-8''))"

fun bytes_decode_utf8 :: "bytes \<Rightarrow> exn + pystr" where
  "bytes_decode_utf8 [] = Inr []"
| "bytes_decode_utf8 (b0 # rest) =
     (let n0 = unat b0
      in if n0 < 128
         then and_then (bytes_decode_utf8 rest) (\<lambda>s. Inr (n0 # s))
         else if 194 \<le> n0 \<and> n0 \<le> 223
         then (case rest of
                 b1 # r \<Rightarrow>
                   if continuation b1
                   then and_then (bytes_decode_utf8 r)
                          (\<lambda>s. Inr (((n0 - 192) * 64 + (unat b1 - 128)) # s))
                   else invalid_utf8
               | _ \<Rightarrow> invalid_utf8)
         else if 224 \<le> n0 \<and> n0 \<le> 239
         then (case rest of
                 b1 # b2 # r \<Rightarrow>
                   if continuation b1 \<and> continuation b2
                      \<and> (n0 = 224 \<longrightarrow> 160 \<le> unat b1) \<and> (n0 = 237 \<longrightarrow> unat b1 \<le> 159)
                   then and_then (bytes_decode_utf8 r)
                          (\<lambda>s. Inr (((n0 - 224) * 4096 + (unat b1 - 128) * 64 + (unat b2 - 128)) # s))
                   else invalid_utf8
               | _ \<Rightarrow> invalid_utf8)
         else if 240 \<le> n0 \<and> n0 \<le> 244
         then (case rest of
                 b1 # b2 # b3 # r \<Rightarrow>
                   if continuation b1 \<and> continuation b2 \<and> continuation b3
                      \<and> (n0 = 240 \<longrightarrow> 144 \<le> unat b1) \<and> (n0 = 244 \<longrightarrow> unat b1 \<le> 143)
                   then and_then (bytes_decode_utf8 r)
                          (\<lambda>s. Inr (((n0 - 240) * 262144 + (unat b1 - 128) * 4096
                                      + (unat b2 - 128) * 64 + (unat b3 - 128)) # s))
                   else invalid_utf8
               | _ \<Rightarrow> invalid_utf8)
         else invalid_utf8)"

text \<open>
  Key derivation and the cipher are stand-ins of the same interface. Like HMAC, on which
  PBKDF2 rests, the derivation pads the password with zero bytes, so that a password and
  the same password followed by NUL bytes derive one key; the password is encoded as
  latin-1, as PyCryptodome does. The cipher leaves the plaintext as it is, takes the first
  16 bytes of the key as the tag, refuses an empty nonce and rejects every other tag.
\<close>

definition demo_key :: "bytes \<Rightarrow> bytes \<Rightarrow> bytes" where
  "demo_key password_bytes salt_bytes =
     take 64 (password_bytes @ replicate 64 0) @ salt_bytes"

definition demo_tag :: "bytes \<Rightarrow> bytes" where
  "demo_tag key = take 16 (key @ replicate 16 0)"

definition demo_library :: library where
  "demo_library =
     \<lparr>pbkdf2 = (\<lambda>password salt.
         if latin1 password then Inr (demo_key (map of_nat password) salt)
         else Inl (LibraryError (Library ''latin-1 codec cannot encode''))),
      gcm_encrypt = (\<lambda>key nonce plaintext. Inr (plaintext, demo_tag key)),
      gcm_decrypt = (\<lambda>key nonce ciphertext tag.
         if nonce = [] then Inl (ValueError (Library ''Nonce cannot be empty''))
         else if tag = demo_tag key then Inr ciphertext
         else Inl (ValueError (Library ''MAC check failed''))),
      b64encode = b64_encode,
      b64decode = b64_decode,
      utf8_encode = str_encode_utf8,
      utf8_decode = bytes_decode_utf8,
      default_output_path = (\<lambda>p. ''stego_'' @ p)\<rparr>"

definition demo_entropy :: entropy where
  "demo_entropy = \<lparr>salt = replicate 16 1, nonce = replicate 16 2\<rparr>"

definition single_file :: "path \<Rightarrow> image \<Rightarrow> files" where
  "single_file p img = (\<lambda>q. if q = p then Some img else None)"

definition plain_image :: "nat \<Rightarrow> nat \<Rightarrow> image" where
  "plain_image w h = \<lparr>width = w, height = h, pixels = replicate (h * w * 3) 254\<rparr>"

text \<open>
  An image whose least significant bits spell the character A, the byte 128 and the
  delimiter.
\<close>

definition high_byte_image :: image where
  "high_byte_image =
     \<lparr>width = 11, height = 1,
      pixels = [0, 1, 0, 0, 0, 0, 0, 1,  1, 0, 0, 0, 0, 0, 0, 0,
                1, 1, 1, 1, 1, 1, 1, 1,  1, 1, 1, 1, 1, 1, 1, 0,  0]\<rparr>"

text \<open>
  The envelope text that the instance produces for the plaintext hi, the password p and
  the random bytes above: the base64 text, 68 characters, of the 50 bytes salt, nonce, tag,
  ciphertext.
\<close>

definition demo_envelope :: pystr where
  "demo_envelope =
     [65, 81, 69, 66, 65, 81, 69, 66, 65, 81, 69, 66, 65, 81, 69, 66, 65,
      81, 69, 66, 65, 81, 73, 67, 65, 103, 73, 67, 65, 103, 73, 67, 65, 103,
      73, 67, 65, 103, 73, 67, 65, 103, 74, 119, 65, 65, 65, 65, 65, 65, 65,
      65, 65, 65, 65, 65, 65, 65, 65, 65, 65, 65, 65, 65, 97, 71, 107, 61]"

text \<open>The base64 text, 56 characters, of 40 bytes of value 1: 8 bytes short of a header.\<close>

definition short_envelope :: pystr where
  "short_envelope =
     [65, 81, 69, 66, 65, 81, 69, 66, 65, 81, 69, 66, 65, 81, 69, 66, 65, 81,
      69, 66, 65, 81, 69, 66, 65, 81, 69, 66, 65, 81, 69, 66, 65, 81, 69, 66,
      65, 81, 69, 66, 65, 81, 69, 66, 65, 81, 69, 66, 65, 81, 69, 66, 65, 81,
      61, 61]"

section \<open>Lemmas about the codec\<close>

subsection \<open>Binary digits\<close>

lemma bin_nonempty: "bin n \<noteq> []"
  by (subst bin.simps) simp

lemma int_base2_append: "int_base2 (xs @ [c]) = 2 * int_base2 xs + int_of_bit c"
  by (simp add: int_base2_def)

lemma int_of_bit_digit: "d < 2 \<Longrightarrow> int_of_bit (digit d) = d"
  by (auto simp: int_of_bit_def digit_def)

lemma int_base2_bin: "int_base2 (bin n) = n"
proof (induction n rule: bin.induct)
  case (1 n)
  show ?case
  proof (cases "n < 2")
    case True
    then show ?thesis
      by (subst bin.simps) (simp add: int_base2_def int_of_bit_digit)
  next
    case False
    then have "int_base2 (bin (n div 2)) = n div 2" using 1 by simp
    with False show ?thesis
      by (subst bin.simps) (simp add: int_base2_append int_of_bit_digit)
  qed
qed

lemma length_bin_le: "n < 2 ^ k \<Longrightarrow> 0 < k \<Longrightarrow> length (bin n) \<le> k"
proof (induction n arbitrary: k rule: bin.induct)
  case (1 n)
  show ?case
  proof (cases "n < 2")
    case True
    with 1(3) show ?thesis by (subst bin.simps) simp
  next
    case False
    obtain j where k: "k = Suc j"
      using 1(3) by (cases k) auto
    have j: "0 < j"
      using False 1(2) k by (cases j) auto
    have "n div 2 < 2 ^ j" using 1(2) k by auto
    then have "length (bin (n div 2)) \<le> j" using 1(1) False j by simp
    with False k show ?thesis by (subst bin.simps) simp
  qed
qed

lemma int_base2_replicate0: "int_base2 (replicate k CHR ''0'' @ s) = int_base2 s"
  by (induction k) (simp_all add: int_base2_def int_of_bit_def)

lemma int_base2_format: "int_base2 (format_08b n) = n"
  by (simp add: format_08b_def Let_def int_base2_replicate0 int_base2_bin)

lemma length_format: "n < 256 \<Longrightarrow> length (format_08b n) = 8"
  using length_bin_le [of n 8] by (simp add: format_08b_def Let_def)

lemma format_ascii_hd: "n \<le> 127 \<Longrightarrow> \<exists>t. format_08b n = CHR ''0'' # t \<and> length t = 7"
proof -
  assume "n \<le> 127"
  then have "length (bin n) \<le> 7" using length_bin_le [of n 7] by simp
  then obtain j where "8 - length (bin n) = Suc j" by (cases "8 - length (bin n)") auto
  moreover have "length (format_08b n) = 8" using \<open>n \<le> 127\<close> by (simp add: length_format)
  ultimately show ?thesis by (auto simp: format_08b_def Let_def)
qed

subsection \<open>The embedding loop\<close>

lemma length_embed_loop: "length (embed_loop i bs flat) = length flat"
  by (induction bs arbitrary: i flat) auto

lemma nth_embed_loop:
  "j < length flat \<Longrightarrow>
   embed_loop i bs flat ! j =
     (if i \<le> j \<and> j < i + length bs
      then (flat ! j AND 0xFE) OR of_nat (int_of_bit (bs ! (j - i)))
      else flat ! j)"
proof (induction bs arbitrary: i flat)
  case Nil
  then show ?case by auto
next
  case (Cons b bs)
  let ?flat' = "if i < length flat
        then flat[i := (flat ! i AND 0xFE) OR of_nat (int_of_bit b)] else flat"
  have len: "j < length ?flat'" using Cons.prems by simp
  consider "j < i" | "j = i" | "i < j" by arith
  then show ?case
  proof cases
    case 1
    then show ?thesis
      using Cons.IH [OF len, of "Suc i"] Cons.prems by (simp add: nth_list_update)
  next
    case 2
    then show ?thesis
      using Cons.IH [OF len, of "Suc i"] Cons.prems by simp
  next
    case 3
    then have "(b # bs) ! (j - i) = bs ! (j - Suc i)"
      by (simp add: nth_Cons' )
    with 3 show ?thesis
      using Cons.IH [OF len, of "Suc i"] Cons.prems by (simp add: nth_list_update)
  qed
qed

lemma mask_FE: "(0xFE :: u8) = NOT 1"
  by simp

lemma lsb_written: "((x AND 0xFE) OR of_nat (int_of_bit c)) AND (1::u8) = of_nat (int_of_bit c)"
  unfolding mask_FE by (rule bit_word_eqI) (auto simp: int_of_bit_def bit_simps)

lemma high_kept: "drop_bit 1 ((x AND 0xFE) OR of_nat (int_of_bit c) :: u8) = drop_bit 1 x"
proof (rule bit_word_eqI)
  fix n
  assume "n < LENGTH(8)"
  have "bit ((x AND NOT 1) OR of_nat (int_of_bit c)) (Suc n) = bit x (Suc n)"
    by (auto simp: int_of_bit_def bit_simps dest: bit_imp_le_length)
  then show "bit (drop_bit 1 ((x AND 0xFE) OR of_nat (int_of_bit c))) n = bit (drop_bit 1 x) n"
    unfolding mask_FE by (simp only: bit_drop_bit_eq) simp
qed

subsection \<open>The string of least significant bits\<close>

lemma foldl_append_acc:
  "foldl (\<lambda>s p. s @ f p) acc xs = acc @ concat (map f xs)"
  by (induction xs arbitrary: acc) auto

lemma lsb_string_map: "lsb_string xs = map (\<lambda>p. digit (unat (p AND 1))) xs"
proof -
  have "concat (map (\<lambda>p. [g p]) xs) = map g xs" for g :: "u8 \<Rightarrow> char"
    by (induction xs) auto
  then show ?thesis
    by (simp add: lsb_string_def foldl_append_acc str_bit_def)
qed

lemma digit_int_of_bit:
  "c = CHR ''0'' \<or> c = CHR ''1'' \<Longrightarrow> digit (unat (of_nat (int_of_bit c) :: u8)) = c"
  by (auto simp: digit_def int_of_bit_def)

lemma binary_bin: "binary (bin n)"
proof (induction n rule: bin.induct)
  case (1 n)
  show ?case
  proof (cases "n < 2")
    case True
    then show ?thesis by (subst bin.simps) (simp add: binary_def list_all_iff digit_def)
  next
    case False
    with 1 show ?thesis by (subst bin.simps) (auto simp: binary_def list_all_iff digit_def)
  qed
qed

lemma binary_append: "binary (xs @ ys) \<longleftrightarrow> binary xs \<and> binary ys"
  by (auto simp: binary_def list_all_iff)

lemma binary_replicate0: "binary (replicate k CHR ''0'')"
  by (simp add: binary_def list_all_iff)

lemma binary_format: "binary (format_08b n)"
  by (simp add: format_08b_def Let_def binary_append binary_replicate0 binary_bin)

lemma binary_to_binary: "binary (to_binary d)"
proof (induction d)
  case Nil
  show ?case by (simp add: to_binary_def list_all_iff binary_def list_all_iff)
next
  case (Cons c d)
  then show ?case by (simp add: to_binary_def list_all_iff binary_append binary_format)
qed

lemma binary_delimiter: "binary delimiter"
  by (simp add: binary_def list_all_iff delimiter_def)

lemma lsb_string_embed:
  assumes "binary bs" and "length bs \<le> length flat"
  shows "lsb_string (embed_loop 0 bs flat) = bs @ lsb_string (drop (length bs) flat)"
proof (rule nth_equalityI)
  show "length (lsb_string (embed_loop 0 bs flat)) = length (bs @ lsb_string (drop (length bs) flat))"
    using assms by (simp add: lsb_string_map length_embed_loop)
next
  fix j
  assume "j < length (lsb_string (embed_loop 0 bs flat))"
  then have j: "j < length flat" by (simp add: lsb_string_map length_embed_loop)
  show "lsb_string (embed_loop 0 bs flat) ! j = (bs @ lsb_string (drop (length bs) flat)) ! j"
  proof (cases "j < length bs")
    case True
    then have "bs ! j = CHR ''0'' \<or> bs ! j = CHR ''1''"
      using assms(1) by (auto simp: binary_def list_all_iff)
    then show ?thesis
      using True j
      by (simp add: lsb_string_map length_embed_loop nth_embed_loop lsb_written
          digit_int_of_bit nth_append)
  next
    case False
    then have "drop (length bs) flat ! (j - length bs) = flat ! j"
      using assms(2) by simp
    with False show ?thesis
      using j by (simp add: lsb_string_map length_embed_loop nth_embed_loop nth_append)
  qed
qed

subsection \<open>The first occurrence of the delimiter\<close>

lemma find_from_first:
  "n \<le> length s \<Longrightarrow> prefix sub (drop n s) \<Longrightarrow> \<forall>i<n. \<not> prefix sub (drop i s)
   \<Longrightarrow> find_from k s sub = int (k + n)"
proof (induction s arbitrary: k n)
  case Nil
  then show ?case by simp
next
  case (Cons c cs)
  show ?case
  proof (cases n)
    case 0
    with Cons.prems show ?thesis by simp
  next
    case (Suc m)
    have "\<not> prefix sub (c # cs)" using Cons.prems(3) Suc by force
    moreover have "find_from (Suc k) cs sub = int (Suc k + m)"
    proof (rule Cons.IH)
      show "m \<le> length cs" using Cons.prems(1) Suc by simp
      show "prefix sub (drop m cs)" using Cons.prems(2) Suc by simp
      show "\<forall>i<m. \<not> prefix sub (drop i cs)"
        using Cons.prems(3) Suc by (metis Suc_less_eq drop_Suc_Cons)
    qed
    ultimately show ?thesis using Suc by simp
  qed
qed

lemma delimiter_replicate: "delimiter = replicate 15 CHR ''1'' @ [CHR ''0'']"
  by (simp add: delimiter_def numeral_eq_Suc)

lemma prefix_delimiter_nth:
  assumes "prefix delimiter xs"
  shows "\<forall>j<15. xs ! j = CHR ''1''" and "xs ! 15 = CHR ''0''"
proof -
  from assms obtain zs where xs: "xs = delimiter @ zs" by (auto simp: prefix_def)
  show "\<forall>j<15. xs ! j = CHR ''1''"
    by (simp add: xs delimiter_replicate nth_append)
  show "xs ! 15 = CHR ''0''"
    by (simp add: xs delimiter_replicate nth_append)
qed

lemma length_to_binary: "ascii s \<Longrightarrow> length (to_binary s) = 8 * length s"
  by (induction s) (auto simp: to_binary_def list_all_iff ascii_def list_all_iff length_format)

lemma to_binary_Cons: "to_binary (c # s) = format_08b c @ to_binary s"
  by (simp add: to_binary_def list_all_iff)

lemma to_binary_msb:
  "ascii s \<Longrightarrow> m < length s \<Longrightarrow> (to_binary s @ rest) ! (8 * m) = CHR ''0''"
proof (induction s arbitrary: m)
  case Nil
  then show ?case by simp
next
  case (Cons c s)
  from Cons.prems(1) have c: "c \<le> 127" and s: "ascii s" by (auto simp: ascii_def list_all_iff)
  from format_ascii_hd [OF c] obtain t where t: "format_08b c = CHR ''0'' # t" "length t = 7"
    by blast
  show ?case
  proof (cases m)
    case 0
    then show ?thesis by (simp add: to_binary_Cons t)
  next
    case (Suc k)
    then have "k < length s" using Cons.prems(2) by simp
    from Cons.IH [OF s this] show ?thesis
      using Suc t by (simp add: to_binary_Cons nth_append)
  qed
qed

lemma no_early_delimiter:
  assumes "ascii s" and "i < 8 * length s"
  shows "\<not> prefix delimiter (drop i (to_binary s @ delimiter @ rest))"
proof
  let ?w = "to_binary s @ delimiter @ rest"
  assume p: "prefix delimiter (drop i ?w)"
  have len: "length (to_binary s) = 8 * length s" using assms(1) by (rule length_to_binary)
  have "length delimiter \<le> length (drop i ?w)" using p by (rule prefix_length_le)
  then have bound: "i + 16 \<le> length ?w" by (simp add: delimiter_def)
  have at: "drop i ?w ! j = ?w ! (i + j)" for j
    by (rule nth_drop) (use bound in linarith)
  have ones: "?w ! (i + j) = CHR ''1''" if "j < 15" for j
    using prefix_delimiter_nth(1) [OF p] that unfolding at by blast
  have zero: "?w ! (i + 15) = CHR ''0''"
    using prefix_delimiter_nth(2) [OF p] unfolding at .
  define m where "m = (i + 7) div 8"
  show False
  proof (cases "m < length s")
    case True
    have "?w ! (8 * m) = CHR ''0''" using to_binary_msb [OF assms(1) True] by simp
    moreover have "i \<le> 8 * m" "8 * m < i + 15" unfolding m_def by arith+
    then have "8 * m = i + (8 * m - i)" "8 * m - i < 15" by arith+
    ultimately show False using ones [of "8 * m - i"] by simp
  next
    case False
    then have lo: "8 * length s + 8 \<le> i + 15" unfolding m_def by arith
    have hi: "i + 15 < 8 * length s + 15" using assms(2) by simp
    define d where "d = i + 15 - 8 * length s"
    have d: "8 \<le> d" "d < 15" "i + 15 = 8 * length s + d" using lo hi by (auto simp: d_def)
    have "?w ! (i + 15) = (delimiter @ rest) ! d"
      using d len by (simp add: nth_append)
    also have "\<dots> = CHR ''1''"
      using d by (simp add: delimiter_replicate nth_append)
    finally show False using zero by simp
  qed
qed

lemma str_find_payload:
  assumes "ascii s"
  shows "str_find (to_binary s @ delimiter @ rest) delimiter = int (8 * length s)"
proof -
  have len: "length (to_binary s) = 8 * length s" using assms by (rule length_to_binary)
  have "find_from 0 (to_binary s @ delimiter @ rest) delimiter = int (0 + 8 * length s)"
  proof (rule find_from_first)
    show "8 * length s \<le> length (to_binary s @ delimiter @ rest)" using len by simp
    show "prefix delimiter (drop (8 * length s) (to_binary s @ delimiter @ rest))"
      using len by simp
    show "\<forall>i<8 * length s. \<not> prefix delimiter (drop i (to_binary s @ delimiter @ rest))"
      using no_early_delimiter [OF assms] by blast
  qed
  then show ?thesis by (simp add: str_find_def)
qed

subsection \<open>Decoding and the round trip on arrays\<close>

lemma to_text_to_binary:
  "ascii s \<Longrightarrow> to_text (to_binary s) acc = acc @ s"
proof (induction s arbitrary: acc)
  case Nil
  then show ?case by (subst to_text.simps) (simp add: to_binary_def list_all_iff)
next
  case (Cons c s)
  from Cons.prems have c: "c \<le> 127" and s: "ascii s" by (auto simp: ascii_def list_all_iff)
  have l: "length (format_08b c) = 8" using c by (simp add: length_format)
  have ne: "to_binary (c # s) \<noteq> []" using l by (auto simp: to_binary_Cons)
  have tk: "take 8 (to_binary (c # s)) = format_08b c" "drop 8 (to_binary (c # s)) = to_binary s"
    using l by (simp_all add: to_binary_Cons)
  have "to_text (to_binary (c # s)) acc = to_text (to_binary s) (acc @ [c])"
    using ne l c by (subst to_text.simps) (simp add: tk int_base2_format)
  then show ?case using Cons.IH [OF s] by simp
qed

lemma extract_text_embed:
  assumes "ascii s" and "length (to_binary s @ delimiter) \<le> length flat"
  shows "extract_text (embed_loop 0 (to_binary s @ delimiter) flat) = Inr s"
proof -
  let ?bs = "to_binary s @ delimiter"
  have b: "binary ?bs" by (simp add: binary_append binary_to_binary binary_delimiter)
  have l: "lsb_string (embed_loop 0 ?bs flat)
      = to_binary s @ delimiter @ lsb_string (drop (length ?bs) flat)"
    using lsb_string_embed [OF b assms(2)] by simp
  have len: "length (to_binary s) = 8 * length s" using assms(1) by (rule length_to_binary)
  show ?thesis
    unfolding extract_text_def l Let_def str_find_payload [OF assms(1)]
    using len by (simp add: to_text_to_binary [OF assms(1)])
qed

lemma hide_array_Inr:
  "hide_array a d = Inr out \<Longrightarrow>
     length (to_binary d @ delimiter) \<le> length (elems a) \<and>
     out = \<lparr>shape = shape a, elems = embed_loop 0 (to_binary d @ delimiter) (elems a)\<rparr>"
  by (auto simp: hide_array_def Let_def size_nd_def flatten_def reshape_def split: if_splits)

lemma half_eq_close:
  fixes x y :: u8
  assumes "drop_bit 1 x = drop_bit 1 y"
  shows "\<bar>int (unat x) - int (unat y)\<bar> \<le> 1"
proof -
  have "unat (drop_bit 1 x) = unat (drop_bit 1 y)" using assms by simp
  then have "drop_bit 1 (unat x) = drop_bit 1 (unat y)" by (simp only: unat_drop_bit_eq)
  then have "unat x div 2 = unat y div 2" by (simp add: drop_bit_eq_div)
  then show ?thesis by arith
qed

section \<open>Properties of embedding\<close>

text \<open>
  C10. Embedding keeps the shape and the number of samples of the array, and changes a
  sample in its least significant bit only: at every flattened index the output sample
  shifted right by one is the input sample shifted right by one, so the two differ by at
  most 1 and the output stays within 0 to 255.
\<close>

theorem embed_changes_lsb_only:
  assumes "hide_array img_array data_to_hide = Inr out"
  shows "shape out = shape img_array \<and> size_nd out = size_nd img_array \<and>
         (\<forall>i < size_nd img_array.
            drop_bit 1 (flatten out ! i) = drop_bit 1 (flatten img_array ! i) \<and>
            \<bar>int (unat (flatten out ! i)) - int (unat (flatten img_array ! i))\<bar> \<le> 1 \<and>
            unat (flatten out ! i) \<le> 255)"
proof -
  let ?bs = "to_binary data_to_hide @ delimiter"
  from hide_array_Inr [OF assms]
  have out: "out = \<lparr>shape = shape img_array, elems = embed_loop 0 ?bs (elems img_array)\<rparr>"
    by simp
  have half: "drop_bit 1 (flatten out ! i) = drop_bit 1 (flatten img_array ! i)"
    if "i < size_nd img_array" for i
  proof -
    have "elems out ! i =
        (if i < length ?bs then (elems img_array ! i AND 0xFE) OR of_nat (int_of_bit (?bs ! i))
         else elems img_array ! i)"
      using nth_embed_loop [of i "elems img_array" 0 ?bs] that by (simp add: out size_nd_def)
    then have "drop_bit 1 (elems out ! i) = drop_bit 1 (elems img_array ! i)"
      by (cases "i < length ?bs") (simp_all only: high_kept if_True if_False)
    then show ?thesis by (simp add: flatten_def)
  qed
  have bound: "unat w \<le> 255" for w :: u8
    using unsigned_less [of w, where ?'a = nat] by simp
  show ?thesis
    using half half_eq_close bound by (simp add: out size_nd_def length_embed_loop)
qed

theorem embed_changes_lsb_only_witness:
  "hide_array (np_array (plain_image 8 1)) [104] =
     Inr \<lparr>shape = (1, 8, 3),
          elems = [254, 255, 255, 254, 255, 254, 254, 254, 255, 255, 255, 255,
                   255, 255, 255, 255, 255, 255, 255, 255, 255, 255, 255, 254]\<rparr> \<and>
   (1::nat) < size_nd (np_array (plain_image 8 1)) \<and>
   drop_bit 1 (255 :: u8) = drop_bit 1 (flatten (np_array (plain_image 8 1)) ! 1)"
proof -
  let ?out = "\<lparr>shape = (1, 8, 3),
          elems = [254, 255, 255, 254, 255, 254, 254, 254, 255, 255, 255, 255,
                   255, 255, 255, 255, 255, 255, 255, 255, 255, 255, 255, 254 :: u8]\<rparr>"
  have h: "hide_array (np_array (plain_image 8 1)) [104] = Inr ?out"
    by code_simp
  have i: "(1::nat) < size_nd (np_array (plain_image 8 1))"
    by code_simp
  from embed_changes_lsb_only [OF h] i
  have "drop_bit 1 (flatten ?out ! 1) = drop_bit 1 (flatten (np_array (plain_image 8 1)) ! 1)"
    by blast
  then show ?thesis using h i by (simp add: flatten_def)
qed

text \<open>
  C4. Embedding a payload that fits changes no sample at a flattened index at or beyond
  the length of the bit sequence (payload digits followed by the delimiter): those
  samples of the output equal those of the input.
\<close>

theorem embed_frame:
  assumes "hide_array img_array data_to_hide = Inr out"
  shows "(\<forall>i. length (to_binary data_to_hide @ delimiter) \<le> i \<and> i < size_nd img_array
            \<longrightarrow> flatten out ! i = flatten img_array ! i) \<and>
         drop (length (to_binary data_to_hide @ delimiter)) (flatten out) =
         drop (length (to_binary data_to_hide @ delimiter)) (flatten img_array)"
proof (rule conjI)
  let ?bs = "to_binary data_to_hide @ delimiter"
  from hide_array_Inr [OF assms]
  have out: "out = \<lparr>shape = shape img_array, elems = embed_loop 0 ?bs (elems img_array)\<rparr>"
    by simp
  show "\<forall>i. length ?bs \<le> i \<and> i < size_nd img_array
            \<longrightarrow> flatten out ! i = flatten img_array ! i"
    by (simp add: out flatten_def size_nd_def nth_embed_loop)
  show "drop (length ?bs) (flatten out) = drop (length ?bs) (flatten img_array)"
  proof (rule nth_equalityI)
    show "length (drop (length ?bs) (flatten out)) = length (drop (length ?bs) (flatten img_array))"
      by (simp add: out flatten_def length_embed_loop)
  next
    fix j
    assume "j < length (drop (length ?bs) (flatten out))"
    then have j: "length ?bs + j < length (elems img_array)"
      by (simp add: out flatten_def length_embed_loop)
    then have "embed_loop 0 ?bs (elems img_array) ! (length ?bs + j) = elems img_array ! (length ?bs + j)"
      by (simp add: nth_embed_loop)
    then show "drop (length ?bs) (flatten out) ! j = drop (length ?bs) (flatten img_array) ! j"
      using j by (simp add: out flatten_def length_embed_loop)
  qed
qed

theorem embed_frame_witness:
  "hide_array (np_array (plain_image 9 1)) [104] =
     Inr \<lparr>shape = (1, 9, 3),
          elems = [254, 255, 255, 254, 255, 254, 254, 254, 255, 255, 255, 255, 255, 255,
                   255, 255, 255, 255, 255, 255, 255, 255, 255, 254, 254, 254, 254]\<rparr> \<and>
   length (to_binary [104] @ delimiter) \<le> 25 \<and>
   25 < size_nd (np_array (plain_image 9 1)) \<and>
   (254 :: u8) = flatten (np_array (plain_image 9 1)) ! 25"
proof -
  let ?out = "\<lparr>shape = (1, 9, 3),
          elems = [254, 255, 255, 254, 255, 254, 254, 254, 255, 255, 255, 255, 255, 255,
                   255, 255, 255, 255, 255, 255, 255, 255, 255, 254, 254, 254, 254 :: u8]\<rparr>"
  have h: "hide_array (np_array (plain_image 9 1)) [104] = Inr ?out"
    by code_simp
  have i: "length (to_binary [104] @ delimiter) \<le> 25 \<and> 25 < size_nd (np_array (plain_image 9 1))"
    by code_simp
  from embed_frame [OF h] i
  have "flatten ?out ! 25 = flatten (np_array (plain_image 9 1)) ! 25"
    by blast
  then show ?thesis using h i by (simp add: flatten_def)
qed

section \<open>Capacity\<close>

lemma hide_array_Inl_iff:
  "(hide_array a d = Inl e) =
   (size_nd a < length (to_binary d @ delimiter) \<and>
    e = ValueError (Image_too_small (length (to_binary d @ delimiter)) (size_nd a)))"
  by (auto simp: hide_array_def Let_def)

lemma hide_array_Inr_iff:
  "(\<exists>out. hide_array a d = Inr out) = (length (to_binary d @ delimiter) \<le> size_nd a)"
  by (auto simp: hide_array_def Let_def)

lemma hide_body_too_small:
  assumes "fs image_path = Some img"
    and "length (pixels img) < length (to_binary d @ delimiter)"
  shows "hide_body L rnd fs image_path d [] output_path =
     (Inl (ValueError (Image_too_small (length (to_binary d @ delimiter)) (length (pixels img)))), fs)"
proof -
  have "hide_array (np_array img) d =
      Inl (ValueError (Image_too_small (length (to_binary d @ delimiter)) (length (pixels img))))"
    using assms(2) by (simp add: hide_array_Inl_iff size_nd_def np_array_def)
  then show ?thesis
    using assms(1) by (simp add: hide_body_def and_then_def image_open_def)
qed

lemma length_to_binary_latin1: "latin1 s \<Longrightarrow> length (to_binary s) = 8 * length s"
  by (induction s) (auto simp: to_binary_def latin1_def length_format)

lemma length_delimiter: "length delimiter = 16"
  by (simp add: delimiter_def)

lemma analyze_body_Some:
  "fs image_path = Some img \<Longrightarrow>
   analyze_body fs image_path =
     Inr \<lparr>total_pixels = int (length (pixels img)),
          max_characters = (int (length (pixels img)) - 16) div 8,
          max_bytes = (int (length (pixels img)) - 16) div 8,
          image_dimensions = (width img, height img)\<rparr>"
  by (simp add: analyze_body_def and_then_def image_open_def Let_def size_nd_def np_array_def
      length_delimiter)

text \<open>
  C3. Embedding fails with the capacity error (the \<open>ValueError\<close> of line 37) exactly
  when the bit sequence, payload digits followed by the 16 delimiter digits, is longer than
  the number of samples: a sequence of exactly that many digits is embedded, one digit more
  fails. The check comes before any write: on failure the method's \<open>try\<close> block ends
  with that error, \<open>hide_data\<close> returns \<open>None\<close>, and the files are as they were.
\<close>

theorem capacity_check:
  "(\<exists>e. hide_array a d = Inl e) = (size_nd a < length (to_binary d @ delimiter)) \<and>
   (\<forall>e. hide_array a d = Inl e \<longrightarrow>
      e = ValueError (Image_too_small (length (to_binary d @ delimiter)) (size_nd a))) \<and>
   (length (to_binary d @ delimiter) = size_nd a \<longrightarrow> (\<exists>out. hide_array a d = Inr out)) \<and>
   (length (to_binary d @ delimiter) = size_nd a + 1 \<longrightarrow> (\<exists>e. hide_array a d = Inl e)) \<and>
   (fs image_path = Some img \<and> length (pixels img) < length (to_binary d @ delimiter) \<longrightarrow>
      hide_body L rnd fs image_path d [] output_path =
        (Inl (ValueError (Image_too_small (length (to_binary d @ delimiter)) (length (pixels img)))), fs) \<and>
      hide_data L rnd fs image_path d [] output_path = (Inr None, fs))"
proof (intro conjI impI allI)
  show "(\<exists>e. hide_array a d = Inl e) = (size_nd a < length (to_binary d @ delimiter))"
    by (simp add: hide_array_Inl_iff)
  show "e = ValueError (Image_too_small (length (to_binary d @ delimiter)) (size_nd a))"
    if "hide_array a d = Inl e" for e
    using that by (simp add: hide_array_Inl_iff)
  show "\<exists>out. hide_array a d = Inr out" if "length (to_binary d @ delimiter) = size_nd a"
    using that by (simp add: hide_array_Inr_iff)
  show "\<exists>e. hide_array a d = Inl e" if "length (to_binary d @ delimiter) = size_nd a + 1"
    using that by (simp add: hide_array_Inl_iff)
  assume h: "fs image_path = Some img \<and> length (pixels img) < length (to_binary d @ delimiter)"
  then show b: "hide_body L rnd fs image_path d [] output_path =
        (Inl (ValueError (Image_too_small (length (to_binary d @ delimiter)) (length (pixels img)))), fs)"
    by (simp add: hide_body_too_small)
  show "hide_data L rnd fs image_path d [] output_path = (Inr None, fs)"
    by (simp add: hide_data_def b)
qed

theorem capacity_check_witness:
  "length (to_binary [104] @ delimiter) = size_nd (np_array (plain_image 8 1)) \<and>
   (\<exists>out. hide_array (np_array (plain_image 8 1)) [104] = Inr out) \<and>
   length (to_binary [256] @ delimiter) = size_nd (np_array (plain_image 8 1)) + 1 \<and>
   hide_array (np_array (plain_image 8 1)) [256] = Inl (ValueError (Image_too_small 25 24)) \<and>
   single_file ''in.png'' (plain_image 8 1) ''in.png'' = Some (plain_image 8 1) \<and>
   length (pixels (plain_image 8 1)) < length (to_binary [256] @ delimiter) \<and>
   hide_data demo_library demo_entropy (single_file ''in.png'' (plain_image 8 1)) ''in.png''
     [256] [] None = (Inr None, single_file ''in.png'' (plain_image 8 1))"
proof -
  let ?a = "np_array (plain_image 8 1)"
  let ?fs = "single_file ''in.png'' (plain_image 8 1)"
  have fit: "length (to_binary [104] @ delimiter) = size_nd ?a"
    by code_simp
  have over: "length (to_binary [256] @ delimiter) = size_nd ?a + 1"
    by code_simp
  have sz: "size_nd ?a = 24" "length (to_binary [256] @ delimiter) = 25"
    by code_simp+
  have fl: "?fs ''in.png'' = Some (plain_image 8 1) \<and>
      length (pixels (plain_image 8 1)) < length (to_binary [256] @ delimiter)"
    by code_simp
  note c1 = capacity_check [of ?a "[104]" ?fs "''in.png''" "plain_image 8 1" demo_library demo_entropy None]
  note c2 = capacity_check [of ?a "[256]" ?fs "''in.png''" "plain_image 8 1" demo_library demo_entropy None]
  have "\<exists>out. hide_array ?a [104] = Inr out" using c1 fit by blast
  moreover have "hide_array ?a [256] = Inl (ValueError (Image_too_small 25 24))"
    using c2 over sz by metis
  moreover have "hide_data demo_library demo_entropy ?fs ''in.png'' [256] [] None = (Inr None, ?fs)"
    using c2 fl by blast
  ultimately show ?thesis using fit over fl by blast
qed

text \<open>
  C2. The capacity query returns the number of samples minus the 16 delimiter digits,
  divided by 8 and rounded down, as \<open>max_bytes\<close>; that is the largest number of
  8-bit characters that can be embedded in the image. The query leaves the files unchanged.
\<close>

theorem capacity_query:
  "snd (analyze_image_capacity fs image_path) = fs \<and>
   (fs image_path = Some img \<longrightarrow>
      (\<exists>report. fst (analyze_image_capacity fs image_path) = Inr report \<and>
         total_pixels report = int (length (pixels img)) \<and>
         max_bytes report = (int (length (pixels img)) - 16) div 8 \<and>
         max_characters report = max_bytes report \<and>
         (\<forall>d. latin1 d \<longrightarrow>
            (\<exists>out. hide_array (np_array img) d = Inr out) = (int (length d) \<le> max_bytes report))))"
proof (intro conjI impI)
  show "snd (analyze_image_capacity fs image_path) = fs"
    by (simp add: analyze_image_capacity_def split: sum.splits)
next
  assume f: "fs image_path = Some img"
  let ?r = "\<lparr>total_pixels = int (length (pixels img)),
          max_characters = (int (length (pixels img)) - 16) div 8,
          max_bytes = (int (length (pixels img)) - 16) div 8,
          image_dimensions = (width img, height img)\<rparr>"
  have r: "fst (analyze_image_capacity fs image_path) = Inr ?r"
    using analyze_body_Some [of fs image_path img] f by (simp add: analyze_image_capacity_def)
  have fits: "(\<exists>out. hide_array (np_array img) d = Inr out) = (int (length d) \<le> max_bytes ?r)"
    if "latin1 d" for d
  proof -
    have "(\<exists>out. hide_array (np_array img) d = Inr out) = (8 * length d + 16 \<le> length (pixels img))"
      using length_to_binary_latin1 [OF that]
      by (simp add: hide_array_Inr_iff size_nd_def np_array_def length_delimiter)
    also have "\<dots> = (int (length d) \<le> (int (length (pixels img)) - 16) div 8)"
      by arith
    finally show ?thesis by simp
  qed
  show "\<exists>report. fst (analyze_image_capacity fs image_path) = Inr report \<and>
         total_pixels report = int (length (pixels img)) \<and>
         max_bytes report = (int (length (pixels img)) - 16) div 8 \<and>
         max_characters report = max_bytes report \<and>
         (\<forall>d. latin1 d \<longrightarrow>
            (\<exists>out. hide_array (np_array img) d = Inr out) = (int (length d) \<le> max_bytes report))"
    using r fits by (intro exI [of _ ?r]) simp
qed

theorem capacity_query_witness:
  "single_file ''in.png'' (plain_image 10 10) ''in.png'' = Some (plain_image 10 10) \<and>
   latin1 [104, 105] \<and>
   fst (analyze_image_capacity (single_file ''in.png'' (plain_image 10 10)) ''in.png'') =
     Inr \<lparr>total_pixels = 300, max_characters = 35, max_bytes = 35, image_dimensions = (10, 10)\<rparr> \<and>
   (\<exists>out. hide_array (np_array (plain_image 10 10)) [104, 105] = Inr out)"
proof -
  let ?fs = "single_file ''in.png'' (plain_image 10 10)"
  have f: "?fs ''in.png'' = Some (plain_image 10 10)"
    by code_simp
  have l: "latin1 [104, 105]"
    by code_simp
  have r: "fst (analyze_image_capacity ?fs ''in.png'') =
     Inr \<lparr>total_pixels = 300, max_characters = 35, max_bytes = 35, image_dimensions = (10, 10)\<rparr>"
    by code_simp
  from capacity_query [of ?fs "''in.png''" "plain_image 10 10"] f r l
  have "(\<exists>out. hide_array (np_array (plain_image 10 10)) [104, 105] = Inr out) =
        (int (length [104, 105 :: nat]) \<le> 35)"
    by fastforce
  then show ?thesis using f l r by simp
qed

section \<open>Round trip without a password\<close>

lemma hide_body_ok:
  assumes "fs image_path = Some img"
    and "(if password \<noteq> [] then encrypt_data L rnd secret_data password else Inr secret_data) = Inr t"
    and "length (to_binary t @ delimiter) \<le> length (pixels img)"
  shows "hide_body L rnd fs image_path secret_data password output_path =
     (Inr (resolve_output_path L image_path output_path),
      fs(resolve_output_path L image_path output_path \<mapsto>
           \<lparr>width = width img, height = height img,
            pixels = embed_loop 0 (to_binary t @ delimiter) (pixels img)\<rparr>))"
proof -
  have "hide_array (np_array img) t =
      Inr \<lparr>shape = (height img, width img, 3),
           elems = embed_loop 0 (to_binary t @ delimiter) (pixels img)\<rparr>"
    using assms(3)
    by (simp add: hide_array_def Let_def size_nd_def np_array_def flatten_def reshape_def)
  then show ?thesis
    using assms(1,2)
    by (simp add: hide_body_def and_then_def image_open_def fromarray_def Let_def)
qed

lemma extract_body_image:
  assumes "fs p = Some img" and "extract_text (pixels img) = Inr t"
  shows "extract_body L fs p pw =
     and_then (decrypt_if_password L t pw)
       (\<lambda>x. if x = [] then Inl (ValueError No_valid_data) else Inr x)"
  using assms
  by (simp add: extract_body_def and_then_def image_open_def flatten_def np_array_def)

lemma no_password: "pw = None \<or> pw = Some [] \<Longrightarrow> decrypt_if_password L t pw = Inr t"
  by (auto simp: decrypt_if_password_def)

lemma ascii_fits:
  "ascii s \<Longrightarrow> 8 * length s + 16 \<le> n \<Longrightarrow> length (to_binary s @ delimiter) \<le> n"
  by (simp add: length_to_binary length_delimiter)

lemma extract_text_embedded:
  assumes fit: "length (to_binary t @ delimiter) \<le> length flat"
    and found: "\<And>R. str_find (to_binary t @ delimiter @ R) delimiter = int (length (to_binary t))"
    and whole: "length (to_binary t) mod 8 = 0"
  shows "extract_text (embed_loop 0 (to_binary t @ delimiter) flat) = Inr (to_text (to_binary t) [])"
proof -
  let ?bs = "to_binary t @ delimiter"
  have b: "binary ?bs" by (simp add: binary_append binary_to_binary binary_delimiter)
  have l: "lsb_string (embed_loop 0 ?bs flat)
      = to_binary t @ delimiter @ lsb_string (drop (length ?bs) flat)"
    using lsb_string_embed [OF b fit] by simp
  show ?thesis
    unfolding extract_text_def l Let_def found
    using whole by simp
qed

lemma hide_data_ok:
  assumes "fs image_path = Some img"
    and "length (to_binary t @ delimiter) \<le> length (pixels img)"
  shows "hide_data L rnd fs image_path t [] output_path =
           (Inr (Some (resolve_output_path L image_path output_path)),
            fs(resolve_output_path L image_path output_path \<mapsto>
                 \<lparr>width = width img, height = height img,
                  pixels = embed_loop 0 (to_binary t @ delimiter) (pixels img)\<rparr>))"
proof -
  have "hide_body L rnd fs image_path t [] output_path =
      (Inr (resolve_output_path L image_path output_path),
       fs(resolve_output_path L image_path output_path \<mapsto>
            \<lparr>width = width img, height = height img,
             pixels = embed_loop 0 (to_binary t @ delimiter) (pixels img)\<rparr>))"
    using hide_body_ok [where fs = fs and image_path = image_path and img = img
        and password = "[]" and secret_data = t and t = t and L = L and rnd = rnd
        and output_path = output_path] assms
    by simp
  then show ?thesis
    by (simp add: hide_data_def)
qed

lemma extract_body_written:
  assumes "extract_text px = Inr x"
  shows "extract_body L (fs(out \<mapsto> \<lparr>width = w, height = h, pixels = px\<rparr>)) out pw =
         and_then (decrypt_if_password L x pw)
           (\<lambda>x. if x = [] then Inl (ValueError No_valid_data) else Inr x)"
  using extract_body_image [where fs = "fs(out \<mapsto> \<lparr>width = w, height = h, pixels = px\<rparr>)"
      and p = out and img = "\<lparr>width = w, height = h, pixels = px\<rparr>" and t = x
      and L = L and pw = pw] assms
  by simp

text \<open>
  C1 (amended). For every non-empty string of ASCII characters (code points up to 127)
  whose 8 digits per character plus the 16 delimiter digits fit the number of samples,
  extracting with no password from the image that \<open>hide_data\<close> wrote returns the
  string itself.
\<close>

theorem roundtrip_ascii:
  assumes "fs image_path = Some img"
    and "ascii S" and "S \<noteq> []"
    and "8 * length S + 16 \<le> length (pixels img)"
    and "pw = None \<or> pw = Some []"
  shows "\<exists>out fs'. hide_data L rnd fs image_path S [] output_path = (Inr (Some out), fs') \<and>
           extract_data L fs' out pw = (Inr S, fs')"
proof -
  let ?out = "resolve_output_path L image_path output_path"
  let ?fs' = "fs(?out \<mapsto> \<lparr>width = width img, height = height img,
            pixels = embed_loop 0 (to_binary S @ delimiter) (pixels img)\<rparr>)"
  have fit: "length (to_binary S @ delimiter) \<le> length (pixels img)"
    using assms(2,4) by (rule ascii_fits)
  have x: "extract_text (embed_loop 0 (to_binary S @ delimiter) (pixels img)) = Inr S"
    using extract_text_embed [OF assms(2) fit] .
  have h: "hide_data L rnd fs image_path S [] output_path = (Inr (Some ?out), ?fs')"
    using assms(1) fit by (rule hide_data_ok)
  have "extract_body L ?fs' ?out pw = Inr S"
    using extract_body_written [OF x, of L fs ?out "width img" "height img" pw]
      assms(3) no_password [OF assms(5)]
    by (simp add: and_then_def)
  then have "extract_data L ?fs' ?out pw = (Inr S, ?fs')"
    by (simp add: extract_data_def)
  with h show ?thesis by blast
qed

theorem roundtrip_ascii_witness:
  "single_file ''in.png'' (plain_image 10 10) ''in.png'' = Some (plain_image 10 10) \<and>
   ascii [104, 105] \<and> [104, 105 :: nat] \<noteq> [] \<and>
   8 * length [104, 105 :: nat] + 16 \<le> length (pixels (plain_image 10 10)) \<and>
   (\<exists>out fs'. hide_data demo_library demo_entropy (single_file ''in.png'' (plain_image 10 10))
        ''in.png'' [104, 105] [] None = (Inr (Some out), fs') \<and>
      extract_data demo_library fs' out None = (Inr [104, 105], fs'))"
proof -
  have f: "single_file ''in.png'' (plain_image 10 10) ''in.png'' = Some (plain_image 10 10)"
    by code_simp
  have a: "ascii [104, 105]"
    by code_simp
  have n: "[104, 105 :: nat] \<noteq> []"
    by simp
  have c: "8 * length [104, 105 :: nat] + 16 \<le> length (pixels (plain_image 10 10))"
    by code_simp
  from roundtrip_ascii [where fs = "single_file ''in.png'' (plain_image 10 10)"
      and image_path = "''in.png''" and img = "plain_image 10 10" and S = "[104, 105]"
      and pw = None and L = demo_library and rnd = demo_entropy and output_path = None]
    f a n c
  show ?thesis by simp
qed

text \<open>
  C1 as stated fails: the two characters A and e-acute (code point 233, 3 bytes in UTF-8)
  fit the image under every reading of the capacity, and extraction returns the single
  character A. The empty string fits as well, and extracting it raises the error of line
  119.
\<close>

theorem roundtrip_counterexample:
  "8 * 3 + 16 \<le> (int (length (pixels (plain_image 12 10))) - 16) div 8 \<and>
   fst (hide_data demo_library demo_entropy (single_file ''in.png'' (plain_image 12 10))
        ''in.png'' [65, 233] [] (Some ''out.png'')) = Inr (Some ''out.png'') \<and>
   fst (extract_data demo_library
         (snd (hide_data demo_library demo_entropy (single_file ''in.png'' (plain_image 12 10))
                ''in.png'' [65, 233] [] (Some ''out.png'')))
         ''out.png'' None) = Inr [65] \<and>
   fst (extract_data demo_library
         (snd (hide_data demo_library demo_entropy (single_file ''in.png'' (plain_image 12 10))
                ''in.png'' [] [] (Some ''out.png'')))
         ''out.png'' None) = Inl (Exception (Data_extraction_failed No_valid_data))"
proof -
  let ?fs = "single_file ''in.png'' (plain_image 12 10)"
  have tb: "to_binary [65, 233] = ''0100000111101001''"
    by code_simp
  have f: "?fs ''in.png'' = Some (plain_image 12 10)"
    by code_simp
  have len: "length (pixels (plain_image 12 10)) = 360"
    by (simp add: plain_image_def)
  have fit: "length (to_binary [65, 233] @ delimiter) \<le> length (pixels (plain_image 12 10))"
    unfolding tb len by (simp add: length_delimiter)
  have found: "str_find (to_binary [65, 233] @ delimiter @ R) delimiter
      = int (length (to_binary [65, 233]))" for R
    unfolding tb by (simp add: str_find_def delimiter_def)
  have tt: "to_text (to_binary [65, 233]) [] = [65]"
    by code_simp
  have x: "extract_text (embed_loop 0 (to_binary [65, 233] @ delimiter) (pixels (plain_image 12 10)))
      = Inr [65]"
  proof -
    have whole: "length (to_binary [65, 233]) mod 8 = 0"
      by code_simp
    show ?thesis
      using extract_text_embedded [OF fit found whole] by (simp only: tt)
  qed
  have h: "hide_data demo_library demo_entropy ?fs ''in.png'' [65, 233] [] (Some ''out.png'') =
      (Inr (Some ''out.png''),
       ?fs(''out.png'' \<mapsto> \<lparr>width = width (plain_image 12 10), height = height (plain_image 12 10),
             pixels = embed_loop 0 (to_binary [65, 233] @ delimiter) (pixels (plain_image 12 10))\<rparr>))"
    using hide_data_ok [where fs = ?fs and image_path = "''in.png''" and img = "plain_image 12 10"
        and t = "[65, 233]" and L = demo_library and rnd = demo_entropy
        and output_path = "Some ''out.png''", OF f fit]
    by (simp only: resolve_output_path_def option.case)
  have e: "extract_body demo_library
       (?fs(''out.png'' \<mapsto> \<lparr>width = width (plain_image 12 10), height = height (plain_image 12 10),
             pixels = embed_loop 0 (to_binary [65, 233] @ delimiter) (pixels (plain_image 12 10))\<rparr>))
       ''out.png'' None = Inr [65]"
    unfolding extract_body_written [OF x]
    by (simp add: and_then_def decrypt_if_password_def)
  have "fst (extract_data demo_library
         (snd (hide_data demo_library demo_entropy ?fs ''in.png'' [65, 233] [] (Some ''out.png'')))
         ''out.png'' None) = Inr [65]"
    unfolding h snd_conv extract_data_def e by simp
  moreover have "fst (hide_data demo_library demo_entropy ?fs ''in.png'' [65, 233] []
        (Some ''out.png'')) = Inr (Some ''out.png'')"
    unfolding h by simp
  moreover have "fst (extract_data demo_library
         (snd (hide_data demo_library demo_entropy ?fs ''in.png'' [] [] (Some ''out.png'')))
         ''out.png'' None) = Inl (Exception (Data_extraction_failed No_valid_data))"
  proof -
    have a0: "ascii []"
      by (simp add: ascii_def)
    have fit0: "length (to_binary [] @ delimiter) \<le> length (pixels (plain_image 12 10))"
      unfolding len by (simp add: to_binary_def length_delimiter)
    have x0: "extract_text (embed_loop 0 (to_binary [] @ delimiter) (pixels (plain_image 12 10)))
        = Inr []"
      using extract_text_embed [OF a0 fit0] .
    have h0: "hide_data demo_library demo_entropy ?fs ''in.png'' [] [] (Some ''out.png'') =
        (Inr (Some ''out.png''),
         ?fs(''out.png'' \<mapsto> \<lparr>width = width (plain_image 12 10),
               height = height (plain_image 12 10),
               pixels = embed_loop 0 (to_binary [] @ delimiter) (pixels (plain_image 12 10))\<rparr>))"
      using hide_data_ok [where fs = ?fs and image_path = "''in.png''" and img = "plain_image 12 10"
          and t = "[]" and L = demo_library and rnd = demo_entropy
          and output_path = "Some ''out.png''", OF f fit0]
      by (simp only: resolve_output_path_def option.case)
    have e0: "extract_body demo_library
         (?fs(''out.png'' \<mapsto> \<lparr>width = width (plain_image 12 10),
               height = height (plain_image 12 10),
               pixels = embed_loop 0 (to_binary [] @ delimiter) (pixels (plain_image 12 10))\<rparr>))
         ''out.png'' None = Inl (ValueError No_valid_data)"
      unfolding extract_body_written [OF x0]
      by (simp add: and_then_def decrypt_if_password_def)
    show ?thesis
      unfolding h0 snd_conv extract_data_def e0 by simp
  qed
  ultimately show ?thesis unfolding len by simp
qed

section \<open>Bytes above 127 and the empty text\<close>

lemma to_text_low_byte:
  assumes "length b = 8" and "int_base2 b \<le> 127"
  shows "to_text (b @ rest) acc = to_text rest (acc @ [int_base2 b])"
proof -
  have ne: "b \<noteq> []"
    using assms(1) by auto
  have tk: "take 8 (b @ rest) = b" "drop 8 (b @ rest) = rest"
    using assms(1) by auto
  show ?thesis
    by (subst to_text.simps) (simp add: ne tk Let_def assms)
qed

lemma to_text_high_byte:
  assumes "length b = 8" and "127 < int_base2 b"
  shows "to_text (b @ rest) acc = acc"
proof -
  have ne: "b \<noteq> []"
    using assms(1) by auto
  have tk: "take 8 (b @ rest) = b"
    using assms(1) by auto
  have high: "\<not> int_base2 b \<le> 127"
    using assms(2) by simp
  show ?thesis
    by (subst to_text.simps) (simp add: ne tk Let_def assms(1) high)
qed

lemma to_text_stops:
  "ascii S \<Longrightarrow> length g = 8 \<Longrightarrow> 127 < int_base2 g
   \<Longrightarrow> to_text (to_binary S @ g @ r) acc = acc @ S"
proof (induction S arbitrary: acc)
  case Nil
  then show ?case
    by (simp add: to_binary_def to_text_high_byte)
next
  case (Cons c S)
  from Cons.prems(1) have c: "c \<le> 127" and s: "ascii S" by (auto simp: ascii_def)
  have l: "length (format_08b c) = 8" using c by (simp add: length_format)
  have "to_text (format_08b c @ (to_binary S @ g @ r)) acc
      = to_text (to_binary S @ g @ r) (acc @ [c])"
    using to_text_low_byte [OF l, of "to_binary S @ g @ r" acc] c
    by (simp add: int_base2_format)
  then show ?case using Cons.IH [OF s Cons.prems(2,3)] by (simp add: to_binary_Cons)
qed

lemma extract_data_no_password:
  assumes "fs p = Some img" and "extract_text (pixels img) = Inr t"
    and "pw = None \<or> pw = Some []"
  shows "extract_data L fs p pw =
     (if t = [] then Inl (Exception (Data_extraction_failed No_valid_data)) else Inr t, fs)"
  using extract_body_image [where fs = fs and p = p and img = img and t = t and L = L and pw = pw]
    assms(1,2) no_password [OF assms(3)]
  by (simp add: extract_data_def and_then_def)

text \<open>
  C5 (amended). Extraction does not fail on a byte above 127: the first 8-digit group
  before the delimiter whose value is above 127 ends the text. With no password,
  extraction returns the characters before that group when there is at least one, and
  fails with the message of line 119 (no valid data) when there is none.
\<close>

theorem extraction_truncates:
  assumes "fs p = Some img"
    and "str_find (lsb_string (pixels img)) delimiter = int n"
    and "take n (lsb_string (pixels img)) = to_binary S @ g @ r"
    and "ascii S" and "length g = 8" and "127 < int_base2 g" and "length r mod 8 = 0"
    and "pw = None \<or> pw = Some []"
  shows "extract_data L fs p pw =
     (if S = [] then Inl (Exception (Data_extraction_failed No_valid_data)) else Inr S, fs)"
proof -
  have len: "length (to_binary S @ g @ r) mod 8 = 0"
    using assms(4,5,7) by (simp add: length_to_binary)
  have "extract_text (pixels img) = Inr (to_text (to_binary S @ g @ r) [])"
    using len by (simp add: extract_text_def Let_def assms(2,3))
  then have "extract_text (pixels img) = Inr S"
    using to_text_stops [OF assms(4,5,6)] by simp
  then show ?thesis
    using extract_data_no_password [where fs = fs and p = p and img = img and t = S
        and pw = pw and L = L] assms(1,8)
    by simp
qed

theorem extraction_truncates_witness:
  "single_file ''s.png'' high_byte_image ''s.png'' = Some high_byte_image \<and>
   str_find (lsb_string (pixels high_byte_image)) delimiter = int 16 \<and>
   take 16 (lsb_string (pixels high_byte_image)) = to_binary [65] @ ''10000000'' @ [] \<and>
   ascii [65] \<and> length ''10000000'' = 8 \<and> 127 < int_base2 ''10000000'' \<and>
   length ([] :: string) mod 8 = 0 \<and>
   extract_data demo_library (single_file ''s.png'' high_byte_image) ''s.png'' None =
     (Inr [65], single_file ''s.png'' high_byte_image)"
proof -
  have 1: "single_file ''s.png'' high_byte_image ''s.png'' = Some high_byte_image"
    by code_simp
  have 2: "str_find (lsb_string (pixels high_byte_image)) delimiter = int 16"
    by code_simp
  have 3: "take 16 (lsb_string (pixels high_byte_image)) = to_binary [65] @ ''10000000'' @ []"
    by code_simp
  have 4: "ascii [65]"
    by code_simp
  have 5: "length ''10000000'' = 8" "127 < int_base2 ''10000000''" "length ([] :: string) mod 8 = 0"
    by code_simp+
  from extraction_truncates [where fs = "single_file ''s.png'' high_byte_image" and p = "''s.png''"
      and img = high_byte_image and n = 16 and S = "[65]" and g = "''10000000''" and r = "[]"
      and pw = None and L = demo_library] 1 2 3 4 5
  have "extract_data demo_library (single_file ''s.png'' high_byte_image) ''s.png'' None =
     (Inr [65], single_file ''s.png'' high_byte_image)"
    by simp
  then show ?thesis using 1 2 3 4 5 by simp
qed

text \<open>
  C5 as stated fails: the bits before the delimiter are the bytes 65 and 128, and
  extraction returns the text A instead of failing.
\<close>

theorem invalid_byte_counterexample:
  "take 16 (lsb_string (pixels high_byte_image)) = to_binary [65, 128] \<and>
   str_find (lsb_string (pixels high_byte_image)) delimiter = 16 \<and>
   fst (extract_data demo_library (single_file ''s.png'' high_byte_image) ''s.png'' None)
     = Inr [65]"
  by code_simp

lemma extract_data_never_empty: "fst (extract_data L fs p pw) \<noteq> Inr []"
  by (auto simp: extract_data_def extract_body_def and_then_def split: sum.splits if_splits)

text \<open>
  C9. Extraction never returns the empty string. When the text recovered before the
  delimiter is empty and no password is given, extraction raises the error of line 119
  (no valid data); in particular embedding the empty string and extracting it again
  raises that error, so the round trip does not hold for the empty payload.
\<close>

theorem empty_payload_fails:
  "fst (extract_data L fs p pw) \<noteq> Inr [] \<and>
   (fs p = Some img \<and> extract_text (pixels img) = Inr [] \<and> (pw = None \<or> pw = Some []) \<longrightarrow>
      extract_data L fs p pw = (Inl (Exception (Data_extraction_failed No_valid_data)), fs)) \<and>
   (fs p = Some img \<and> 16 \<le> length (pixels img) \<longrightarrow>
      (\<exists>out fs'. hide_data L rnd fs p [] [] output_path = (Inr (Some out), fs') \<and>
         extract_data L fs' out None =
           (Inl (Exception (Data_extraction_failed No_valid_data)), fs')))"
proof (intro conjI impI)
  show "fst (extract_data L fs p pw) \<noteq> Inr []"
    by (rule extract_data_never_empty)
next
  assume "fs p = Some img \<and> extract_text (pixels img) = Inr [] \<and> (pw = None \<or> pw = Some [])"
  then show "extract_data L fs p pw = (Inl (Exception (Data_extraction_failed No_valid_data)), fs)"
    using extract_data_no_password [where fs = fs and p = p and img = img and t = "[]"
        and pw = pw and L = L]
    by simp
next
  assume a: "fs p = Some img \<and> 16 \<le> length (pixels img)"
  let ?out = "resolve_output_path L p output_path"
  let ?px = "embed_loop 0 (to_binary [] @ delimiter) (pixels img)"
  let ?fs' = "fs(?out \<mapsto> \<lparr>width = width img, height = height img, pixels = ?px\<rparr>)"
  have asc: "ascii []" by (simp add: ascii_def)
  have fit: "length (to_binary [] @ delimiter) \<le> length (pixels img)"
    using a by (simp add: to_binary_def length_delimiter)
  have h: "hide_data L rnd fs p [] [] output_path = (Inr (Some ?out), ?fs')"
    using a fit hide_data_ok [where fs = fs and image_path = p and img = img and t = "[]"
        and L = L and rnd = rnd and output_path = output_path]
    by simp
  have x: "extract_text ?px = Inr []"
    using extract_text_embed [OF asc fit] .
  have "extract_data L ?fs' ?out None =
      (Inl (Exception (Data_extraction_failed No_valid_data)), ?fs')"
    using extract_data_no_password [where fs = ?fs' and p = ?out
        and img = "\<lparr>width = width img, height = height img, pixels = ?px\<rparr>"
        and t = "[]" and pw = None and L = L] x
    by simp
  with h show "\<exists>out fs'. hide_data L rnd fs p [] [] output_path = (Inr (Some out), fs') \<and>
         extract_data L fs' out None =
           (Inl (Exception (Data_extraction_failed No_valid_data)), fs')"
    by blast
qed

theorem empty_payload_fails_witness:
  "single_file ''in.png'' (plain_image 8 1) ''in.png'' = Some (plain_image 8 1) \<and>
   16 \<le> length (pixels (plain_image 8 1)) \<and>
   (\<exists>out fs'. hide_data demo_library demo_entropy (single_file ''in.png'' (plain_image 8 1))
        ''in.png'' [] [] None = (Inr (Some out), fs') \<and>
      extract_data demo_library fs' out None =
        (Inl (Exception (Data_extraction_failed No_valid_data)), fs')) \<and>
   single_file ''e.png'' \<lparr>width = 8, height = 1, pixels = replicate 15 1 @ replicate 9 0\<rparr> ''e.png''
     = Some \<lparr>width = 8, height = 1, pixels = replicate 15 1 @ replicate 9 0\<rparr> \<and>
   extract_text (pixels \<lparr>width = 8, height = 1, pixels = replicate 15 1 @ replicate 9 0\<rparr>) = Inr [] \<and>
   extract_data demo_library
     (single_file ''e.png'' \<lparr>width = 8, height = 1, pixels = replicate 15 1 @ replicate 9 0\<rparr>)
     ''e.png'' (Some []) =
     (Inl (Exception (Data_extraction_failed No_valid_data)),
      single_file ''e.png'' \<lparr>width = 8, height = 1, pixels = replicate 15 1 @ replicate 9 0\<rparr>)"
proof -
  let ?fs = "single_file ''in.png'' (plain_image 8 1)"
  let ?e = "\<lparr>width = 8, height = 1, pixels = replicate 15 1 @ replicate 9 (0 :: u8)\<rparr>"
  have 1: "?fs ''in.png'' = Some (plain_image 8 1) \<and> 16 \<le> length (pixels (plain_image 8 1))"
    by code_simp
  have 2: "single_file ''e.png'' ?e ''e.png'' = Some ?e \<and> extract_text (pixels ?e) = Inr []"
    by code_simp
  note t1 = empty_payload_fails [where fs = ?fs and p = "''in.png''" and img = "plain_image 8 1"
      and L = demo_library and rnd = demo_entropy and output_path = None and pw = None]
  note t2 = empty_payload_fails [where fs = "single_file ''e.png'' ?e" and p = "''e.png''"
      and img = ?e and L = demo_library and rnd = demo_entropy and output_path = None
      and pw = "Some []"]
  have "\<exists>out fs'. hide_data demo_library demo_entropy ?fs ''in.png'' [] [] None
        = (Inr (Some out), fs') \<and>
      extract_data demo_library fs' out None =
        (Inl (Exception (Data_extraction_failed No_valid_data)), fs')"
    using t1 1 by blast
  moreover have "extract_data demo_library (single_file ''e.png'' ?e) ''e.png'' (Some []) =
     (Inl (Exception (Data_extraction_failed No_valid_data)), single_file ''e.png'' ?e)"
    using t2 2 by blast
  ultimately show ?thesis using 1 2 by blast
qed

section \<open>The payload cipher and the password\<close>

lemma and_then_Inl [simp]: "and_then (Inl e) f = Inl e"
  by (simp add: and_then_def)

lemma and_then_Inr [simp]: "and_then (Inr x) f = f x"
  by (simp add: and_then_def)

lemma decrypt_data_Inl:
  "decrypt_body L t pw = Inl e \<Longrightarrow>
   decrypt_data L t pw = Inl (Exception (Decryption_failed (str_exn e)))"
  by (simp add: decrypt_data_def)

lemma decrypt_body_decoded:
  assumes "utf8_encode L t = Inr encoded" and "b64decode L encoded = Inr bs"
  shows "decrypt_body L t pw =
     and_then (pbkdf2 L pw (take 16 bs)) (\<lambda>key.
     and_then (gcm_decrypt L key (take 16 (drop 16 bs)) (drop 48 bs) (take 16 (drop 32 bs)))
       (utf8_decode L))"
  using assms by (simp add: decrypt_body_def Let_def)

text \<open>
  C6 (amended). For every input string and password, \<open>_decrypt_data\<close> fails, with the
  exception of line 174 that carries the message of the cause, whenever base64 decoding
  fails. The length of the decoded bytes is not tested: when they are fewer than 48, the
  tag slice is shorter than 16 bytes and the ciphertext is empty, and \<open>_decrypt_data\<close>
  returns or fails as key derivation, the verification of that tag by the cipher, and
  UTF-8 decoding do.
\<close>

theorem decrypt_malformed:
  assumes "utf8_encode L encrypted_data = Inr encoded"
  shows "(\<forall>e. b64decode L encoded = Inl e \<longrightarrow>
            decrypt_data L encrypted_data password
              = Inl (Exception (Decryption_failed (str_exn e)))) \<and>
         (\<forall>bs. b64decode L encoded = Inr bs \<and> length bs < 48 \<longrightarrow>
            length (take 16 (drop 32 bs)) < 16 \<and> drop 48 bs = [] \<and>
            decrypt_data L encrypted_data password =
              (case and_then (pbkdf2 L password (take 16 bs)) (\<lambda>key.
                    and_then (gcm_decrypt L key (take 16 (drop 16 bs)) []
                                (take 16 (drop 32 bs)))
                      (utf8_decode L)) of
                 Inl e \<Rightarrow> Inl (Exception (Decryption_failed (str_exn e)))
               | Inr text \<Rightarrow> Inr text))"
proof (intro conjI allI impI)
  fix e
  assume "b64decode L encoded = Inl e"
  then have "decrypt_body L encrypted_data password = Inl e"
    using assms by (simp add: decrypt_body_def)
  then show "decrypt_data L encrypted_data password
      = Inl (Exception (Decryption_failed (str_exn e)))"
    by (rule decrypt_data_Inl)
next
  fix bs
  assume a: "b64decode L encoded = Inr bs \<and> length bs < 48"
  then show "length (take 16 (drop 32 bs)) < 16"
    by auto
  from a show empty: "drop 48 bs = []"
    by simp
  from a have bs: "b64decode L encoded = Inr bs"
    by simp
  show "decrypt_data L encrypted_data password =
      (case and_then (pbkdf2 L password (take 16 bs)) (\<lambda>key.
            and_then (gcm_decrypt L key (take 16 (drop 16 bs)) [] (take 16 (drop 32 bs)))
              (utf8_decode L)) of
         Inl e \<Rightarrow> Inl (Exception (Decryption_failed (str_exn e)))
       | Inr text \<Rightarrow> Inr text)"
    unfolding decrypt_data_def decrypt_body_decoded [OF assms bs] empty ..
qed

theorem decrypt_malformed_witness:
  "utf8_encode demo_library [65, 81, 73] = Inr [65, 81, 73] \<and>
   b64decode demo_library [65, 81, 73] = Inl (LibraryError (Library ''Incorrect padding'')) \<and>
   decrypt_data demo_library [65, 81, 73] [112]
     = Inl (Exception (Decryption_failed (Library ''Incorrect padding''))) \<and>
   utf8_encode demo_library short_envelope = Inr (map of_nat short_envelope) \<and>
   b64decode demo_library (map of_nat short_envelope) = Inr (replicate 40 1) \<and>
   length (replicate 40 (1 :: u8)) < 48 \<and>
   decrypt_data demo_library short_envelope [112]
     = Inl (Exception (Decryption_failed (Library ''MAC check failed'')))"
proof -
  have 1: "utf8_encode demo_library [65, 81, 73] = Inr [65, 81, 73]"
    by code_simp
  have 2: "b64decode demo_library [65, 81, 73] = Inl (LibraryError (Library ''Incorrect padding''))"
    by code_simp
  have 3: "utf8_encode demo_library short_envelope = Inr (map of_nat short_envelope)"
    by code_simp
  have 4: "b64decode demo_library (map of_nat short_envelope) = Inr (replicate 40 1)"
    by code_simp
  have 5: "length (replicate 40 (1 :: u8)) < 48"
    by simp
  have 6: "(case and_then (pbkdf2 demo_library [112] (take 16 (replicate 40 1))) (\<lambda>key.
                and_then (gcm_decrypt demo_library key (take 16 (drop 16 (replicate 40 1))) []
                            (take 16 (drop 32 (replicate 40 1))))
                  (utf8_decode demo_library)) of
             Inl e \<Rightarrow> Inl (Exception (Decryption_failed (str_exn e)))
           | Inr text \<Rightarrow> Inr text)
        = Inl (Exception (Decryption_failed (Library ''MAC check failed'')))"
    by code_simp
  note t1 = decrypt_malformed [where L = demo_library and encrypted_data = "[65, 81, 73]"
      and encoded = "[65, 81, 73]" and password = "[112]", OF 1]
  note t2 = decrypt_malformed [where L = demo_library and encrypted_data = short_envelope
      and encoded = "map of_nat short_envelope" and password = "[112]", OF 3]
  have "decrypt_data demo_library [65, 81, 73] [112]
     = Inl (Exception (Decryption_failed (str_exn (LibraryError (Library ''Incorrect padding'')))))"
    using t1 [THEN conjunct1, THEN spec, THEN mp, OF 2] .
  then have a: "decrypt_data demo_library [65, 81, 73] [112]
     = Inl (Exception (Decryption_failed (Library ''Incorrect padding'')))"
    by simp
  have b: "decrypt_data demo_library short_envelope [112]
     = Inl (Exception (Decryption_failed (Library ''MAC check failed'')))"
    using t2 [THEN conjunct2, THEN spec, of "replicate 40 1", THEN mp, OF conjI [OF 4 5],
        THEN conjunct2, THEN conjunct2]
    unfolding 6 .
  show ?thesis
    by (intro conjI) (rule 1 2 a 3 4 5 b)+
qed

lemma demo_encrypt: "encrypt_data demo_library demo_entropy [104, 105] [112] = Inr demo_envelope"
  by code_simp

text \<open>
  C6 as stated fails: 40 decoded bytes, fewer than the 48 of a header, do not make
  \<open>_decrypt_data\<close> fail with an error of their own. The exception raised is the one
  that a complete envelope raises under a wrong password.
\<close>

theorem malformed_counterexample:
  "b64decode demo_library (map of_nat short_envelope) = Inr (replicate 40 1) \<and>
   length (replicate 40 (1 :: u8)) < 48 \<and>
   decrypt_data demo_library short_envelope [112]
     = Inl (Exception (Decryption_failed (Library ''MAC check failed''))) \<and>
   encrypt_data demo_library demo_entropy [104, 105] [112] = Inr demo_envelope \<and>
   decrypt_data demo_library demo_envelope [113]
     = Inl (Exception (Decryption_failed (Library ''MAC check failed'')))"
  by code_simp

lemma encrypt_data_Inr:
  assumes "pbkdf2 L password (salt rnd) = Inr key"
    and "utf8_encode L data = Inr plaintext"
    and "gcm_encrypt L key (nonce rnd) plaintext = Inr (ciphertext, tag)"
    and "utf8_decode L (b64encode L (salt rnd @ nonce rnd @ tag @ ciphertext)) = Inr t"
  shows "encrypt_data L rnd data password = Inr t"
  using assms by (simp add: encrypt_data_def encrypt_body_def)

lemma envelope_slices:
  assumes "length s = 16" and "length n = 16" and "length tag = 16"
  shows "take 16 (s @ n @ tag @ ct) = s"
    and "take 16 (drop 16 (s @ n @ tag @ ct)) = n"
    and "take 16 (drop 32 (s @ n @ tag @ ct)) = tag"
    and "drop 48 (s @ n @ tag @ ct) = ct"
  using assms by simp_all

lemma hide_data_encrypted:
  assumes "fs image_path = Some img"
    and "password \<noteq> []"
    and "encrypt_data L rnd secret_data password = Inr t"
    and "length (to_binary t @ delimiter) \<le> length (pixels img)"
  shows "hide_data L rnd fs image_path secret_data password output_path =
           (Inr (Some (resolve_output_path L image_path output_path)),
            fs(resolve_output_path L image_path output_path \<mapsto>
                 \<lparr>width = width img, height = height img,
                  pixels = embed_loop 0 (to_binary t @ delimiter) (pixels img)\<rparr>))"
proof -
  have "hide_body L rnd fs image_path secret_data password output_path =
      (Inr (resolve_output_path L image_path output_path),
       fs(resolve_output_path L image_path output_path \<mapsto>
            \<lparr>width = width img, height = height img,
             pixels = embed_loop 0 (to_binary t @ delimiter) (pixels img)\<rparr>))"
    using hide_body_ok [where fs = fs and image_path = image_path and img = img
        and password = password and secret_data = secret_data and t = t and L = L and rnd = rnd
        and output_path = output_path] assms
    by simp
  then show ?thesis
    by (simp add: hide_data_def)
qed

lemma extract_data_written:
  assumes "extract_text px = Inr x"
  shows "extract_data L (fs(out \<mapsto> \<lparr>width = w, height = h, pixels = px\<rparr>)) out pw =
     (case and_then (decrypt_if_password L x pw)
             (\<lambda>x. if x = [] then Inl (ValueError No_valid_data) else Inr x) of
        Inl e \<Rightarrow> Inl (Exception (Data_extraction_failed (str_exn e)))
      | Inr y \<Rightarrow> Inr y,
      fs(out \<mapsto> \<lparr>width = w, height = h, pixels = px\<rparr>))"
  unfolding extract_data_def extract_body_written [OF assms]
  by (simp split: sum.splits)

lemma decrypt_if_password_nonempty:
  "pw \<noteq> [] \<Longrightarrow>
   decrypt_if_password L t (Some pw) =
     (case decrypt_body L t pw of
        Inl e \<Rightarrow> Inl (ValueError Incorrect_password)
      | Inr text \<Rightarrow> Inr text)"
  by (simp add: decrypt_if_password_def decrypt_data_def split: sum.splits)

text \<open>
  C7 (amended). Let the envelope be produced by encrypting S under a non-empty password
  P1, with 16-byte salt, nonce and tag, and embedded in an image it fits. For every
  non-empty password P2, extraction with P2 hands the envelope's own nonce, ciphertext and
  tag to the cipher under the key derived from P2 and the envelope's salt: it returns a
  text only when the cipher verifies them, and fails with the error of line 116 (incorrect
  password or corrupted data) whenever key derivation, the cipher or UTF-8 decoding raises.
  Whether P2 is accepted is decided by the key and the cipher, not by P2 differing from
  P1. Extraction with the empty password skips decryption and returns the envelope text.
\<close>

theorem wrong_password_outcome:
  assumes "fs image_path = Some img"
    and "P1 \<noteq> []" and "P2 \<noteq> []"
    and "pbkdf2 L P1 (salt rnd) = Inr key1"
    and "utf8_encode L S = Inr plaintext"
    and "gcm_encrypt L key1 (nonce rnd) plaintext = Inr (ciphertext, tag)"
    and "length (salt rnd) = 16" and "length (nonce rnd) = 16" and "length tag = 16"
    and "utf8_decode L (b64encode L (salt rnd @ nonce rnd @ tag @ ciphertext)) = Inr t"
    and "ascii t"
    and "utf8_encode L t = Inr encoded"
    and "b64decode L encoded = Inr (salt rnd @ nonce rnd @ tag @ ciphertext)"
    and "8 * length t + 16 \<le> length (pixels img)"
  shows "\<exists>out fs'. hide_data L rnd fs image_path S P1 output_path = (Inr (Some out), fs') \<and>
           extract_data L fs' out (Some P2) =
             (case and_then (pbkdf2 L P2 (salt rnd)) (\<lambda>key2.
                   and_then (gcm_decrypt L key2 (nonce rnd) ciphertext tag) (utf8_decode L)) of
                Inl e \<Rightarrow> Inl (Exception (Data_extraction_failed Incorrect_password))
              | Inr text \<Rightarrow>
                  if text = [] then Inl (Exception (Data_extraction_failed No_valid_data))
                  else Inr text,
              fs') \<and>
           (\<forall>key2 e. pbkdf2 L P2 (salt rnd) = Inr key2 \<and>
                gcm_decrypt L key2 (nonce rnd) ciphertext tag = Inl e \<longrightarrow>
              extract_data L fs' out (Some P2) =
                (Inl (Exception (Data_extraction_failed Incorrect_password)), fs')) \<and>
           (t \<noteq> [] \<longrightarrow> extract_data L fs' out (Some []) = (Inr t, fs'))"
proof -
  let ?out = "resolve_output_path L image_path output_path"
  let ?px = "embed_loop 0 (to_binary t @ delimiter) (pixels img)"
  let ?fs' = "fs(?out \<mapsto> \<lparr>width = width img, height = height img, pixels = ?px\<rparr>)"
  let ?verdict = "and_then (pbkdf2 L P2 (salt rnd)) (\<lambda>key2.
      and_then (gcm_decrypt L key2 (nonce rnd) ciphertext tag) (utf8_decode L))"
  have enc: "encrypt_data L rnd S P1 = Inr t"
    using assms(4,5,6,10) by (rule encrypt_data_Inr)
  have fit: "length (to_binary t @ delimiter) \<le> length (pixels img)"
    using assms(11,14) by (rule ascii_fits)
  have h: "hide_data L rnd fs image_path S P1 output_path = (Inr (Some ?out), ?fs')"
    using assms(1,2) enc fit by (rule hide_data_encrypted)
  have x: "extract_text ?px = Inr t"
    using extract_text_embed [OF assms(11) fit] .
  note sl = envelope_slices [OF assms(7,8,9), of ciphertext]
  have body: "decrypt_body L t P2 = ?verdict"
    unfolding decrypt_body_decoded [OF assms(12,13)] sl ..
  have d: "decrypt_if_password L t (Some P2) =
      (case ?verdict of Inl e \<Rightarrow> Inl (ValueError Incorrect_password) | Inr text \<Rightarrow> Inr text)"
    using decrypt_if_password_nonempty [OF assms(3), of L t] by (simp only: body)
  have main: "extract_data L ?fs' ?out (Some P2) =
      (case ?verdict of
         Inl e \<Rightarrow> Inl (Exception (Data_extraction_failed Incorrect_password))
       | Inr text \<Rightarrow>
           if text = [] then Inl (Exception (Data_extraction_failed No_valid_data))
           else Inr text,
       ?fs')"
    unfolding extract_data_written [OF x] d
    by (cases ?verdict) simp_all
  have rejected: "extract_data L ?fs' ?out (Some P2) =
      (Inl (Exception (Data_extraction_failed Incorrect_password)), ?fs')"
    if "pbkdf2 L P2 (salt rnd) = Inr key2 \<and>
        gcm_decrypt L key2 (nonce rnd) ciphertext tag = Inl e" for key2 e
    unfolding main using that by simp
  have bypass: "extract_data L ?fs' ?out (Some []) = (Inr t, ?fs')" if "t \<noteq> []"
    unfolding extract_data_written [OF x]
    using that by (simp add: decrypt_if_password_def)
  show ?thesis
    using h main rejected bypass by blast
qed

lemma demo_tag_length: "length (demo_tag key) = 16"
  by (simp add: demo_tag_def)

theorem wrong_password_outcome_witness:
  "single_file ''in.png'' (plain_image 20 10) ''in.png'' = Some (plain_image 20 10) \<and>
   [112 :: nat] \<noteq> [] \<and> [113 :: nat] \<noteq> [] \<and>
   encrypt_data demo_library demo_entropy [104, 105] [112] = Inr demo_envelope \<and>
   ascii demo_envelope \<and> demo_envelope \<noteq> [] \<and>
   8 * length demo_envelope + 16 \<le> length (pixels (plain_image 20 10)) \<and>
   pbkdf2 demo_library [113] (salt demo_entropy)
     = Inr (demo_key (map of_nat [113]) (salt demo_entropy)) \<and>
   gcm_decrypt demo_library (demo_key (map of_nat [113]) (salt demo_entropy))
     (nonce demo_entropy) [104, 105] (demo_tag (demo_key (map of_nat [112]) (salt demo_entropy)))
     = Inl (ValueError (Library ''MAC check failed'')) \<and>
   (\<exists>out fs'. hide_data demo_library demo_entropy (single_file ''in.png'' (plain_image 20 10))
        ''in.png'' [104, 105] [112] None = (Inr (Some out), fs') \<and>
      extract_data demo_library fs' out (Some [113]) =
        (Inl (Exception (Data_extraction_failed Incorrect_password)), fs') \<and>
      extract_data demo_library fs' out (Some []) = (Inr demo_envelope, fs'))"
proof -
  let ?fs = "single_file ''in.png'' (plain_image 20 10)"
  let ?ct = "[104, 105 :: u8]"
  let ?key1 = "demo_key (map of_nat [112]) (salt demo_entropy)"
  let ?key2 = "demo_key (map of_nat [113]) (salt demo_entropy)"
  let ?tag = "demo_tag ?key1"
  let ?blob = "salt demo_entropy @ nonce demo_entropy @ ?tag @ ?ct"
  have 1: "?fs ''in.png'' = Some (plain_image 20 10)"
    by code_simp
  have 2: "[112 :: nat] \<noteq> []" "[113 :: nat] \<noteq> []"
    by simp_all
  have 4: "pbkdf2 demo_library [112] (salt demo_entropy) = Inr ?key1"
    by (simp add: demo_library_def latin1_def)
  have 5: "utf8_encode demo_library [104, 105] = Inr ?ct"
    by code_simp
  have 6: "gcm_encrypt demo_library ?key1 (nonce demo_entropy) ?ct = Inr (?ct, ?tag)"
    by (simp add: demo_library_def)
  have 7: "length (salt demo_entropy) = 16" "length (nonce demo_entropy) = 16" "length ?tag = 16"
    by (simp_all add: demo_entropy_def demo_tag_length)
  have 10: "utf8_decode demo_library (b64encode demo_library ?blob) = Inr demo_envelope"
    by code_simp
  have 11: "ascii demo_envelope"
    by code_simp
  have 12: "utf8_encode demo_library demo_envelope = Inr (map of_nat demo_envelope)"
    by code_simp
  have 13: "b64decode demo_library (map of_nat demo_envelope) = Inr ?blob"
    by code_simp
  have 14: "8 * length demo_envelope + 16 \<le> length (pixels (plain_image 20 10))"
    by code_simp
  have ne: "demo_envelope \<noteq> []"
    by (simp add: demo_envelope_def)
  have k2: "pbkdf2 demo_library [113] (salt demo_entropy) = Inr ?key2"
    by (simp add: demo_library_def latin1_def)
  have rej: "gcm_decrypt demo_library ?key2 (nonce demo_entropy) ?ct ?tag
      = Inl (ValueError (Library ''MAC check failed''))"
    by code_simp
  from wrong_password_outcome [where fs = ?fs and image_path = "''in.png''"
      and img = "plain_image 20 10" and ?P1.0 = "[112]" and ?P2.0 = "[113]" and L = demo_library
      and rnd = demo_entropy and S = "[104, 105]" and output_path = None,
      OF 1 2 4 5 6 7 10 11 12 13 14]
  obtain out fs' where
    h: "hide_data demo_library demo_entropy ?fs ''in.png'' [104, 105] [112] None
        = (Inr (Some out), fs')"
    and r: "\<forall>key2 e. pbkdf2 demo_library [113] (salt demo_entropy) = Inr key2 \<and>
          gcm_decrypt demo_library key2 (nonce demo_entropy) ?ct ?tag = Inl e \<longrightarrow>
        extract_data demo_library fs' out (Some [113]) =
          (Inl (Exception (Data_extraction_failed Incorrect_password)), fs')"
    and b: "demo_envelope \<noteq> [] \<longrightarrow>
        extract_data demo_library fs' out (Some []) = (Inr demo_envelope, fs')"
    by blast
  have "extract_data demo_library fs' out (Some [113]) =
      (Inl (Exception (Data_extraction_failed Incorrect_password)), fs')"
    using r k2 rej by blast
  moreover have "extract_data demo_library fs' out (Some []) = (Inr demo_envelope, fs')"
    using b ne by blast
  ultimately have "\<exists>out fs'. hide_data demo_library demo_entropy ?fs ''in.png'' [104, 105] [112]
        None = (Inr (Some out), fs') \<and>
      extract_data demo_library fs' out (Some [113]) =
        (Inl (Exception (Data_extraction_failed Incorrect_password)), fs') \<and>
      extract_data demo_library fs' out (Some []) = (Inr demo_envelope, fs')"
    using h by blast
  then show ?thesis
    using 1 2 demo_encrypt 11 ne 14 k2 rej by blast
qed

text \<open>
  C7 as stated fails in two ways, on an image of 600 samples that holds the 560 digits of
  the envelope and the delimiter. The password p followed by a NUL character differs from
  p and derives the same key: extraction with it returns the plaintext. The empty
  password differs from p as well: line 112 skips decryption, and extraction returns the
  envelope text instead of failing.
\<close>

theorem wrong_password_counterexample:
  "[112, 0] \<noteq> [112 :: nat] \<and> [] \<noteq> [112 :: nat] \<and>
   fst (hide_data demo_library demo_entropy (single_file ''in.png'' (plain_image 20 10))
         ''in.png'' [104, 105] [112] (Some ''out.png'')) = Inr (Some ''out.png'') \<and>
   fst (extract_data demo_library
         (snd (hide_data demo_library demo_entropy (single_file ''in.png'' (plain_image 20 10))
                ''in.png'' [104, 105] [112] (Some ''out.png'')))
         ''out.png'' (Some [112, 0])) = Inr [104, 105] \<and>
   fst (extract_data demo_library
         (snd (hide_data demo_library demo_entropy (single_file ''in.png'' (plain_image 20 10))
                ''in.png'' [104, 105] [112] (Some ''out.png'')))
         ''out.png'' (Some [])) = Inr demo_envelope"
proof -
  let ?fs = "single_file ''in.png'' (plain_image 20 10)"
  let ?px = "embed_loop 0 (to_binary demo_envelope @ delimiter) (pixels (plain_image 20 10))"
  let ?fs' = "?fs(''out.png'' \<mapsto> \<lparr>width = width (plain_image 20 10),
      height = height (plain_image 20 10), pixels = ?px\<rparr>)"
  have f: "?fs ''in.png'' = Some (plain_image 20 10)"
    by code_simp
  have a: "ascii demo_envelope"
    by code_simp
  have c: "8 * length demo_envelope + 16 \<le> length (pixels (plain_image 20 10))"
    by code_simp
  have ne: "demo_envelope \<noteq> []"
    by (simp add: demo_envelope_def)
  have fit: "length (to_binary demo_envelope @ delimiter) \<le> length (pixels (plain_image 20 10))"
    using a c by (rule ascii_fits)
  have h: "hide_data demo_library demo_entropy ?fs ''in.png'' [104, 105] [112] (Some ''out.png'')
      = (Inr (Some ''out.png''), ?fs')"
    using hide_data_encrypted [where fs = ?fs and image_path = "''in.png''"
        and img = "plain_image 20 10" and password = "[112]" and secret_data = "[104, 105]"
        and t = demo_envelope and L = demo_library and rnd = demo_entropy
        and output_path = "Some ''out.png''", OF f _ demo_encrypt fit]
    by (simp only: resolve_output_path_def option.case list.distinct not_False_eq_True)
  have x: "extract_text ?px = Inr demo_envelope"
    using extract_text_embed [OF a fit] .
  have d: "decrypt_if_password demo_library demo_envelope (Some [112, 0]) = Inr [104, 105]"
    by code_simp
  have nul: "fst (extract_data demo_library ?fs' ''out.png'' (Some [112, 0])) = Inr [104, 105]"
    unfolding extract_data_written [OF x] d by simp
  have empty: "fst (extract_data demo_library ?fs' ''out.png'' (Some [])) = Inr demo_envelope"
    unfolding extract_data_written [OF x]
    using ne by (simp add: decrypt_if_password_def)
  show ?thesis
    unfolding h using nul empty by simp
qed

section \<open>How failures reach the caller\<close>

lemma hide_body_failure_keeps_files:
  "hide_body L rnd fs image_path secret_data password output_path = (Inl e, fs') \<Longrightarrow> fs' = fs"
  by (auto simp: hide_body_def Let_def split: sum.splits)

text \<open>
  C8 (amended). \<open>hide_data\<close> never raises: it returns \<open>None\<close> exactly when its
  \<open>try\<close> block failed, and then the files are as they were. Every failure of the
  \<open>try\<close> block of \<open>extract_data\<close>, \<open>_encrypt_data\<close> and \<open>_decrypt_data\<close>
  leaves the method as an \<open>Exception\<close> whose message is the method's prefix followed by
  the message of the cause, and these three return a value only when the block did.
\<close>

theorem failures_surface:
  "(\<forall>e. fst (hide_data L rnd fs image_path secret_data password output_path) \<noteq> Inl e) \<and>
   ((fst (hide_data L rnd fs image_path secret_data password output_path) = Inr None) =
      (\<exists>e. fst (hide_body L rnd fs image_path secret_data password output_path) = Inl e)) \<and>
   (fst (hide_data L rnd fs image_path secret_data password output_path) = Inr None \<longrightarrow>
      snd (hide_data L rnd fs image_path secret_data password output_path) = fs) \<and>
   (\<forall>e. extract_body L fs p pw = Inl e \<longrightarrow>
      extract_data L fs p pw = (Inl (Exception (Data_extraction_failed (str_exn e))), fs)) \<and>
   ((\<exists>x. fst (extract_data L fs p pw) = Inr x) = (\<exists>x. extract_body L fs p pw = Inr x)) \<and>
   (\<forall>e. encrypt_body L rnd data key = Inl e \<longrightarrow>
      encrypt_data L rnd data key = Inl (Exception (Encryption_failed (str_exn e)))) \<and>
   ((\<exists>x. encrypt_data L rnd data key = Inr x) = (\<exists>x. encrypt_body L rnd data key = Inr x)) \<and>
   (\<forall>e. decrypt_body L envelope key = Inl e \<longrightarrow>
      decrypt_data L envelope key = Inl (Exception (Decryption_failed (str_exn e)))) \<and>
   ((\<exists>x. decrypt_data L envelope key = Inr x) = (\<exists>x. decrypt_body L envelope key = Inr x))"
proof (intro conjI allI impI)
  let ?b = "hide_body L rnd fs image_path secret_data password output_path"
  let ?h = "hide_data L rnd fs image_path secret_data password output_path"
  obtain r fs' where b: "?b = (r, fs')" by (cases ?b)
  show "fst ?h \<noteq> Inl e" for e
    by (cases r) (simp_all add: hide_data_def b)
  show "(fst ?h = Inr None) = (\<exists>e. fst ?b = Inl e)"
    by (cases r) (simp_all add: hide_data_def b)
  show "snd ?h = fs" if "fst ?h = Inr None"
  proof (cases r)
    case (Inl e)
    then have "fs' = fs" using b hide_body_failure_keeps_files by blast
    then show ?thesis using Inl by (simp add: hide_data_def b)
  next
    case (Inr out)
    then show ?thesis using that by (simp add: hide_data_def b)
  qed
  show "extract_data L fs p pw = (Inl (Exception (Data_extraction_failed (str_exn e))), fs)"
    if "extract_body L fs p pw = Inl e" for e
    using that by (simp add: extract_data_def)
  show "(\<exists>x. fst (extract_data L fs p pw) = Inr x) = (\<exists>x. extract_body L fs p pw = Inr x)"
    by (cases "extract_body L fs p pw") (simp_all add: extract_data_def)
  show "encrypt_data L rnd data key = Inl (Exception (Encryption_failed (str_exn e)))"
    if "encrypt_body L rnd data key = Inl e" for e
    using that by (simp add: encrypt_data_def)
  show "(\<exists>x. encrypt_data L rnd data key = Inr x) = (\<exists>x. encrypt_body L rnd data key = Inr x)"
    by (cases "encrypt_body L rnd data key") (simp_all add: encrypt_data_def)
  show "decrypt_data L envelope key = Inl (Exception (Decryption_failed (str_exn e)))"
    if "decrypt_body L envelope key = Inl e" for e
    using that by (simp add: decrypt_data_def)
  show "(\<exists>x. decrypt_data L envelope key = Inr x) = (\<exists>x. decrypt_body L envelope key = Inr x)"
    by (cases "decrypt_body L envelope key") (simp_all add: decrypt_data_def)
qed

theorem failures_surface_witness:
  "fst (hide_data demo_library demo_entropy (single_file ''in.png'' (plain_image 1 1))
         ''in.png'' [97] [] None) = Inr None \<and>
   snd (hide_data demo_library demo_entropy (single_file ''in.png'' (plain_image 1 1))
         ''in.png'' [97] [] None) = single_file ''in.png'' (plain_image 1 1) \<and>
   extract_body demo_library (single_file ''in.png'' (plain_image 1 1)) ''in.png'' None
     = Inl (ValueError No_hidden_data) \<and>
   extract_data demo_library (single_file ''in.png'' (plain_image 1 1)) ''in.png'' None
     = (Inl (Exception (Data_extraction_failed No_hidden_data)),
        single_file ''in.png'' (plain_image 1 1)) \<and>
   encrypt_body demo_library demo_entropy [55296] [112]
     = Inl (LibraryError (Library ''surrogates not allowed'')) \<and>
   encrypt_data demo_library demo_entropy [55296] [112]
     = Inl (Exception (Encryption_failed (Library ''surrogates not allowed''))) \<and>
   decrypt_body demo_library short_envelope [112]
     = Inl (ValueError (Library ''MAC check failed'')) \<and>
   decrypt_data demo_library short_envelope [112]
     = Inl (Exception (Decryption_failed (Library ''MAC check failed'')))"
proof -
  let ?fs = "single_file ''in.png'' (plain_image 1 1)"
  note t = failures_surface [where L = demo_library and rnd = demo_entropy and fs = ?fs
      and image_path = "''in.png''" and secret_data = "[97]" and password = "[]"
      and output_path = None and p = "''in.png''" and pw = None and data = "[55296]"
      and key = "[112]" and envelope = short_envelope]
  have h: "fst (hide_data demo_library demo_entropy ?fs ''in.png'' [97] [] None) = Inr None"
    by code_simp
  have x: "extract_body demo_library ?fs ''in.png'' None = Inl (ValueError No_hidden_data)"
    by code_simp
  have "utf8_encode_char 55296 = Inl (LibraryError (Library ''surrogates not allowed''))"
    by (simp add: utf8_encode_char_def)
  then have e: "encrypt_body demo_library demo_entropy [55296] [112]
     = Inl (LibraryError (Library ''surrogates not allowed''))"
    by (simp add: encrypt_body_def demo_library_def latin1_def)
  have d: "decrypt_body demo_library short_envelope [112]
     = Inl (ValueError (Library ''MAC check failed''))"
    by code_simp
  have s: "snd (hide_data demo_library demo_entropy ?fs ''in.png'' [97] [] None) = ?fs"
    using t [THEN conjunct2, THEN conjunct2, THEN conjunct1, rule_format, OF h] .
  have "extract_data demo_library ?fs ''in.png'' None
     = (Inl (Exception (Data_extraction_failed (str_exn (ValueError No_hidden_data)))), ?fs)"
    using t [THEN conjunct2, THEN conjunct2, THEN conjunct2, THEN conjunct1, rule_format, OF x] .
  then have x': "extract_data demo_library ?fs ''in.png'' None
     = (Inl (Exception (Data_extraction_failed No_hidden_data)), ?fs)"
    by (simp only: str_exn.simps)
  have "encrypt_data demo_library demo_entropy [55296] [112]
     = Inl (Exception (Encryption_failed
         (str_exn (LibraryError (Library ''surrogates not allowed'')))))"
    using t [THEN conjunct2, THEN conjunct2, THEN conjunct2, THEN conjunct2, THEN conjunct2,
        THEN conjunct1, rule_format, OF e] .
  then have e': "encrypt_data demo_library demo_entropy [55296] [112]
     = Inl (Exception (Encryption_failed (Library ''surrogates not allowed'')))"
    by (simp only: str_exn.simps)
  have "decrypt_data demo_library short_envelope [112]
     = Inl (Exception (Decryption_failed (str_exn (ValueError (Library ''MAC check failed'')))))"
    using t [THEN conjunct2, THEN conjunct2, THEN conjunct2, THEN conjunct2, THEN conjunct2,
        THEN conjunct2, THEN conjunct2, THEN conjunct1, rule_format, OF d] .
  then have d': "decrypt_data demo_library short_envelope [112]
     = Inl (Exception (Decryption_failed (Library ''MAC check failed'')))"
    by (simp only: str_exn.simps)
  show ?thesis
    by (intro conjI) (rule h s x x' e e' d d')+
qed

text \<open>
  C8 as stated fails: on an image of 3 samples the \<open>try\<close> block of \<open>hide_data\<close>
  raises the capacity error, and \<open>hide_data\<close> returns the value \<open>None\<close>.
\<close>

theorem swallowed_error_counterexample:
  "fst (hide_body demo_library demo_entropy (single_file ''in.png'' (plain_image 1 1))
         ''in.png'' [97] [] None) = Inl (ValueError (Image_too_small 24 3)) \<and>
   fst (hide_data demo_library demo_entropy (single_file ''in.png'' (plain_image 1 1))
         ''in.png'' [97] [] None) = Inr None"
  by code_simp

end
